theory Spec2Isabelle
  imports Main "HOL-Library.Word"
begin

section \<open>Machine types\<close>

text \<open>
  \<open>int32_t\<close> and \<open>int\<close> are 32-bit words read as two's complement (\<open>sint\<close>, \<open><s\<close>,
  \<open><=s\<close>). \<open>DWORD\<close>, declared in the engine's header, is taken as the 32-bit unsigned
  type of that name and read with \<open>uint\<close>.
\<close>

type_synonym int32_t = "32 word"
type_synonym DWORD = "32 word"

section \<open>The SSML extractor\<close>

subsection \<open>C strings and the library calls of the scanner\<close>

text \<open>
  A \<open>const char *\<close> argument is \<open>None\<close> for \<open>NULL\<close> and otherwise the bytes found at the
  address; the string it designates ends before the first NUL byte.
\<close>

definition c_str :: "string \<Rightarrow> string" where
  "c_str s = takeWhile (\<lambda>c. c \<noteq> CHR 0x00) s"

text \<open>\<open>*p\<close> for a pointer into a string: the terminator is read at its end.\<close>

definition peek :: "string \<Rightarrow> char" where
  "peek p = (case p of [] \<Rightarrow> CHR 0x00 | c # _ \<Rightarrow> c)"

text \<open>\<open>strncmp(p, lit, n) == 0\<close>: the first \<open>n\<close> characters agree.\<close>

definition strncmp_eq :: "string \<Rightarrow> string \<Rightarrow> nat \<Rightarrow> bool" where
  "strncmp_eq p lit n = (take n p = take n lit)"

text \<open>\<open>strchr(p, c) - p\<close>: the offset of the first \<open>c\<close>, \<open>None\<close> for a \<open>NULL\<close> result.\<close>

definition strchr :: "string \<Rightarrow> char \<Rightarrow> nat option" where
  "strchr p c = (if c \<in> set p then Some (length (takeWhile (\<lambda>x. x \<noteq> c) p)) else None)"

text \<open>
  \<open>sscanf(p, "%d", &code)\<close>: white space is skipped, then an optional sign and a
  non-empty run of decimal digits are read. \<open>Some v\<close> stands for the return value 1 with
  \<open>v\<close> stored; \<open>None\<close> for any other return value, with nothing stored. The scanner calls
  it only when a semicolon follows within six characters, so at most five digits are read
  and the value fits an \<open>int\<close>.
\<close>

definition isspace :: "char \<Rightarrow> bool" where
  "isspace c = (c = CHR 0x20 \<or> (9 \<le> (of_char c :: nat) \<and> (of_char c :: nat) \<le> 13))"

definition isdigit :: "char \<Rightarrow> bool" where
  "isdigit c = (48 \<le> (of_char c :: nat) \<and> (of_char c :: nat) \<le> 57)"

definition digits_value :: "string \<Rightarrow> int" where
  "digits_value ds = foldl (\<lambda>a c. 10 * a + (of_char c - 48)) 0 ds"

definition sscanf_d :: "string \<Rightarrow> int option" where
  "sscanf_d p =
     (let t = dropWhile isspace p;
          neg = (peek t = CHR ''-'');
          u = (if peek t = CHR ''-'' \<or> peek t = CHR ''+'' then drop 1 t else t);
          ds = takeWhile isdigit u
      in if ds = [] then None
         else Some (if neg then - digits_value ds else digits_value ds))"

subsection \<open>The scan\<close>

text \<open>
  The local variables of \<open>dectalk_extract_text_from_ssml\<close>. \<open>src\<close> is the unread rest of
  the input, \<open>dst\<close> the offset of the write pointer from \<open>plainText\<close>, and \<open>out_mem\<close> the
  memory at \<open>plainText\<close>, addressed by offset.
\<close>

record ssml_scan =
  src :: string
  dst :: nat
  written :: int32_t
  inTag :: bool
  out_mem :: "nat \<Rightarrow> char"

text \<open>\<open>*dst++ = c; written++; src += n; continue;\<close>\<close>

definition emit :: "char \<Rightarrow> nat \<Rightarrow> ssml_scan \<Rightarrow> ssml_scan" where
  "emit c n s = s\<lparr>out_mem := (out_mem s)(dst s := c), dst := dst s + 1,
                  written := written s + 1, src := drop n (src s)\<rparr>"

text \<open>The generic numeric entity \<open>&#NNN;\<close>: the decoded character and the offset of the semicolon.\<close>

definition numeric_entity :: "string \<Rightarrow> (char \<times> nat) option" where
  "numeric_entity p =
     (case strchr p CHR '';'' of
        None \<Rightarrow> None
      | Some semi \<Rightarrow>
          if semi < 8 then
            (case sscanf_d (drop 2 p) of
               None \<Rightarrow> None
             | Some code \<Rightarrow> if code > 0 \<and> code < 256 then Some (char_of code, semi) else None)
          else None)"

text \<open>
  The block \<open>if (*src == '&') { ... }\<close>: \<open>Some (c, n)\<close> when one of its branches stores
  \<open>c\<close>, advances \<open>src\<close> by \<open>n\<close> and continues; \<open>None\<close> when control falls through to
  the plain copy below it.
\<close>

definition entity :: "string \<Rightarrow> (char \<times> nat) option" where
  "entity p =
     (if peek p = CHR ''&'' then
        (if strncmp_eq p ''&amp;'' 5 then Some (CHR ''&'', 5)
         else if strncmp_eq p ''&lt;'' 4 then Some (CHR ''<'', 4)
         else if strncmp_eq p ''&gt;'' 4 then Some (CHR ''>'', 4)
         else if strncmp_eq p ''&quot;'' 6 then Some (CHR 0x22, 6)
         else if strncmp_eq p ''&apos;'' 6 then Some (CHR 0x27, 6)
         else if strncmp_eq p ''&#91;'' 5 then Some (CHR ''['', 5)
         else if strncmp_eq p ''&#93;'' 5 then Some (CHR '']'', 5)
         else if strncmp_eq p ''&#58;'' 5 then Some (CHR '':'', 5)
         else if peek p = CHR ''&'' \<and> peek (drop 1 p) = CHR ''#'' then
           (case numeric_entity p of
              Some (c, semi) \<Rightarrow> Some (c, semi + 1)
            | None \<Rightarrow> None)
         else None)
      else None)"

text \<open>One iteration of the \<open>while\<close> loop's body.\<close>

definition ssml_step :: "ssml_scan \<Rightarrow> ssml_scan" where
  "ssml_step s =
     (let p = src s in
      if peek p = CHR ''<'' then s\<lparr>inTag := True, src := drop 1 p\<rparr>
      else if peek p = CHR ''>'' then s\<lparr>inTag := False, src := drop 1 p\<rparr>
      else if \<not> inTag s then
        (case entity p of
           Some (c, n) \<Rightarrow> emit c n s
         | None \<Rightarrow> emit (peek p) 1 s)
      else s\<lparr>src := drop 1 p\<rparr>)"

lemma peek_nonempty: "peek p \<noteq> CHR 0x00 \<Longrightarrow> p \<noteq> []"
  by (auto simp: peek_def)

lemma src_emit [simp]: "src (emit c n s) = drop n (src s)"
  by (simp add: emit_def)

lemma entity_advances: "entity p = Some (c, n) \<Longrightarrow> 0 < n"
  unfolding entity_def by (auto split: if_splits option.splits)

lemma ssml_step_progress:
  "peek (src s) \<noteq> CHR 0x00 \<Longrightarrow> length (src (ssml_step s)) < length (src s)"
proof -
  assume "peek (src s) \<noteq> CHR 0x00"
  then have ne: "src s \<noteq> []" by (rule peek_nonempty)
  then have "0 < length (src s)" by simp
  then show ?thesis
    unfolding ssml_step_def Let_def
    by (auto dest: entity_advances split: option.split)
qed

function ssml_loop :: "int32_t \<Rightarrow> ssml_scan \<Rightarrow> ssml_scan" where
  "ssml_loop maxLength s =
     (if peek (src s) \<noteq> CHR 0x00 \<and> written s <s maxLength - 1
      then ssml_loop maxLength (ssml_step s) else s)"
  by pat_completeness auto
termination
  by (relation "measure (\<lambda>(m, s). length (src s))") (auto simp: ssml_step_progress)

declare ssml_loop.simps [simp del]

definition dectalk_extract_text_from_ssml ::
  "string option \<Rightarrow> (nat \<Rightarrow> char) option \<Rightarrow> int32_t \<Rightarrow> int32_t \<times> (nat \<Rightarrow> char) option" where
  "dectalk_extract_text_from_ssml ssml plainText maxLength =
     (case (ssml, plainText) of
        (Some text, Some mem) \<Rightarrow>
          if maxLength <=s 0 then (0, plainText)
          else
            let s = ssml_loop maxLength
                      \<lparr>src = c_str text, dst = 0, written = 0, inTag = False, out_mem = mem\<rparr>
            in (written s, Some ((out_mem s)(dst s := CHR 0x00)))
      | _ \<Rightarrow> (0, plainText))"


subsection \<open>Running the loop on a budget of iterations\<close>

text \<open>The same loop, given up (\<open>None\<close>) when it has not left after \<open>k\<close> iterations.\<close>

fun ssml_iterate :: "nat \<Rightarrow> int32_t \<Rightarrow> ssml_scan \<Rightarrow> ssml_scan option" where
  "ssml_iterate 0 maxLength s =
     (if peek (src s) \<noteq> CHR 0x00 \<and> written s <s maxLength - 1 then None else Some s)"
| "ssml_iterate (Suc k) maxLength s =
     (if peek (src s) \<noteq> CHR 0x00 \<and> written s <s maxLength - 1
      then ssml_iterate k maxLength (ssml_step s) else Some s)"

subsection \<open>What the extractor computes\<close>

text \<open>
  The text a scan produces, as a function of the input alone. The recognised entities
  are a table; an input that starts with none of them falls back to the decimal rule:
  after \<open>&#\<close> a number is read as \<open>sscanf_d\<close> reads it (optional white space and sign,
  then digits, whatever follows), a semicolon must occur among the first eight characters
  counted from the ampersand, and the number must lie strictly between 0 and 256; the
  entity then spans the input up to that semicolon.
\<close>

definition entity_table :: "(string \<times> char) list" where
  "entity_table =
     [(''&amp;'', CHR ''&''), (''&lt;'', CHR ''<''), (''&gt;'', CHR ''>''),
      (''&quot;'', CHR 0x22), (''&apos;'', CHR 0x27),
      (''&#91;'', CHR ''[''), (''&#93;'', CHR '']''), (''&#58;'', CHR '':'')]"

definition decimal_entity :: "string \<Rightarrow> (char \<times> nat) option" where
  "decimal_entity p =
     (if take 2 p = ''&#'' \<and> CHR '';'' \<in> set (take 8 p) then
        (case sscanf_d (drop 2 p) of
           Some n \<Rightarrow>
             if 0 < n \<and> n < 256
             then Some (char_of n, Suc (length (takeWhile (\<lambda>x. x \<noteq> CHR '';'') p)))
             else None
         | None \<Rightarrow> None)
      else None)"

fun decode_with :: "(string \<times> char) list \<Rightarrow> string \<Rightarrow> (char \<times> nat) option" where
  "decode_with [] p = decimal_entity p"
| "decode_with ((e, c) # es) p =
     (if take (length e) p = e then Some (c, length e) else decode_with es p)"

definition decode :: "string \<Rightarrow> (char \<times> nat) option" where
  "decode p = decode_with entity_table p"

text \<open>
  \<open>ssml_text inside p\<close>: every \<open><\<close> and every \<open>>\<close> is dropped, the first opening a tag
  and the second closing it; inside a tag everything is dropped; outside, an entity
  spanning \<open>n\<close> characters becomes its character and any other character is kept.
\<close>

fun ssml_text :: "bool \<Rightarrow> string \<Rightarrow> string" where
  "ssml_text inside [] = []"
| "ssml_text inside (c # cs) =
     (if c = CHR ''<'' then ssml_text True cs
      else if c = CHR ''>'' then ssml_text False cs
      else if inside then ssml_text True cs
      else (case decode (c # cs) of
              Some (ch, n) \<Rightarrow> ch # ssml_text False (drop (n - 1) cs)
            | None \<Rightarrow> c # ssml_text False cs))"

text \<open>The text of the string at \<open>t\<close>, cut to what a buffer of \<open>maxLength\<close> bytes holds.\<close>

definition extracted :: "int32_t \<Rightarrow> string \<Rightarrow> string" where
  "extracted maxLength t = take (nat (sint maxLength - 1)) (ssml_text False (c_str t))"

text \<open>Memory \<open>mem\<close> with the characters \<open>xs\<close> stored from offset \<open>d\<close> on.\<close>

definition store_chars :: "(nat \<Rightarrow> char) \<Rightarrow> nat \<Rightarrow> string \<Rightarrow> (nat \<Rightarrow> char)" where
  "store_chars mem d xs = (\<lambda>i. if d \<le> i \<and> i < d + length xs then xs ! (i - d) else mem i)"

text \<open>The text a call leaves in the buffer: the bytes before the offset it returns.\<close>

definition output_text :: "int32_t \<times> (nat \<Rightarrow> char) option \<Rightarrow> string" where
  "output_text r = (case snd r of None \<Rightarrow> [] | Some mem \<Rightarrow> map mem [0..<nat (sint (fst r))])"

section \<open>The bridge\<close>

subsection \<open>Public types (DECtalkBridge.h)\<close>

datatype DECtalkError =
    DECtalkErrorNone
  | DECtalkErrorInitFailed
  | DECtalkErrorSynthFailed
  | DECtalkErrorInvalidVoice
  | DECtalkErrorBufferFull

text \<open>A \<open>DECtalkVoice\<close> argument is the integer value of the enumeration.\<close>

definition DECtalkVoicePaul :: int where "DECtalkVoicePaul = 0"
definition DECtalkVoiceCount :: int where "DECtalkVoiceCount = 9"

definition NUM_BUFFERS :: nat where "NUM_BUFFERS = 4"
definition BUFFER_SIZE :: DWORD where "BUFFER_SIZE = 32768"

definition g_voiceCommands :: "string list" where
  "g_voiceCommands =
     [''[:np]'', ''[:nb]'', ''[:nh]'', ''[:nf]'', ''[:nd]'', ''[:nk]'', ''[:nu]'', ''[:nr]'', ''[:nw]'']"

subsection \<open>The engine boundary (ttsapi.h)\<close>

text \<open>
  The engine's header is not part of the sources. The bridge compares a status only with
  \<open>MMSYSERR_NOERROR\<close> and a message only with \<open>TTS_MSG_BUFFER\<close>, so both types keep just
  that distinction. A session handle is \<open>None\<close> for \<open>NULL\<close>.
\<close>

datatype MMRESULT = MMSYSERR_NOERROR | MMSYSERR_OTHER nat
datatype tts_msg = TTS_MSG_BUFFER | TTS_MSG_OTHER nat

type_synonym handle = nat

text \<open>
  The fields of \<open>TTS_BUFFER_T\<close> the bridge touches. \<open>lpData\<close> is the row of
  \<open>g_bufferData\<close> the buffer points into, \<open>None\<close> for \<open>NULL\<close>.
\<close>

record TTS_BUFFER_T =
  lpData :: "nat option"
  lpPhonemeArray :: "nat option"
  lpIndexArray :: "nat option"
  dwMaximumBufferLength :: DWORD
  dwMaximumNumberOfPhonemeChanges :: DWORD
  dwMaximumNumberOfIndexMarks :: DWORD
  dwBufferLength :: DWORD

text \<open>The calls the bridge makes to the engine, with the arguments that vary.\<close>

datatype engine_call =
    TextToSpeechStartupExFonix "string option"
  | TextToSpeechShutdown "handle option"
  | TextToSpeechOpenInMemory "handle option"
  | TextToSpeechCloseInMemory "handle option"
  | TextToSpeechAddBuffer "handle option" nat
  | TextToSpeechSetSpeaker "handle option" int
  | TextToSpeechSpeak "handle option" string
  | TextToSpeechSync "handle option"
  | TextToSpeechReturnBuffer "handle option"
  | TextToSpeechSetRate "handle option" DWORD
  | TextToSpeechGetRate "handle option"

subsection \<open>The global state\<close>

text \<open>
  The file's static variables, the caller's memory and the engine. \<open>g_outputBuffer\<close> is a
  byte address into \<open>heap\<close>, 0 for \<open>NULL\<close>. \<open>g_ttsBuffers\<close> is addressed by index, the pool
  being the indices below \<open>NUM_BUFFERS\<close>. \<open>engine_log\<close> lists the calls made to the engine,
  oldest first, and \<open>engine_rate\<close> is the speaking rate the engine holds. The model is
  sequential: the lock and unlock calls on \<open>g_mutex\<close> and the messages printed to
  \<open>stderr\<close> are left out.
\<close>

record bridge =
  g_ttsHandle :: "handle option"
  g_currentVoice :: int
  g_initialized :: bool
  g_inMemoryOpen :: bool
  g_outputBuffer :: int
  g_outputBufferSize :: int32_t
  g_outputSamplesWritten :: int32_t
  g_ttsBuffers :: "nat \<Rightarrow> TTS_BUFFER_T"
  g_bufferData :: "nat \<Rightarrow> nat \<Rightarrow> 8 word"
  heap :: "int \<Rightarrow> 8 word"
  engine_log :: "engine_call list"
  engine_rate :: DWORD

definition zero_buffer :: TTS_BUFFER_T where
  "zero_buffer = \<lparr>lpData = None, lpPhonemeArray = None, lpIndexArray = None,
     dwMaximumBufferLength = 0, dwMaximumNumberOfPhonemeChanges = 0,
     dwMaximumNumberOfIndexMarks = 0, dwBufferLength = 0\<rparr>"

text \<open>The state at program start: the initialisers of the static variables.\<close>

definition initial_bridge :: "(int \<Rightarrow> 8 word) \<Rightarrow> bridge" where
  "initial_bridge h =
     \<lparr>g_ttsHandle = None, g_currentVoice = DECtalkVoicePaul, g_initialized = False,
      g_inMemoryOpen = False, g_outputBuffer = 0, g_outputBufferSize = 0,
      g_outputSamplesWritten = 0, g_ttsBuffers = (\<lambda>i. zero_buffer),
      g_bufferData = (\<lambda>r k. 0), heap = h, engine_log = [], engine_rate = 0\<rparr>"

definition engine :: "engine_call \<Rightarrow> bridge \<Rightarrow> bridge" where
  "engine c s = s\<lparr>engine_log := engine_log s @ [c]\<rparr>"

text \<open>
  Modelled from the spec: the engine's side of the buffer protocol, which is not part of
  the sources. The engine fills a pool buffer it holds (it stores the filled byte count in
  the buffer and the audio bytes in the buffer's data row) and hands it back, either with
  a notification to the registered callback or as the result of
  \<open>TextToSpeechReturnBuffer\<close>.
\<close>

record fill =
  chunk :: nat
  filled :: DWORD
  pcm :: "nat \<Rightarrow> 8 word"

definition engine_fill :: "fill \<Rightarrow> bridge \<Rightarrow> bridge" where
  "engine_fill f s =
     s\<lparr>g_ttsBuffers := (g_ttsBuffers s)(chunk f := (g_ttsBuffers s (chunk f))\<lparr>dwBufferLength := filled f\<rparr>),
       g_bufferData := (case lpData (g_ttsBuffers s (chunk f)) of
                          None \<Rightarrow> g_bufferData s
                        | Some r \<Rightarrow> (g_bufferData s)(r := pcm f))\<rparr>"

text \<open>
  Modelled from the spec: the engine keeps the rate of the last \<open>TextToSpeechSetRate\<close>
  it accepted and reports it to \<open>TextToSpeechGetRate\<close>.
\<close>

definition engine_set_rate :: "MMRESULT \<Rightarrow> DWORD \<Rightarrow> bridge \<Rightarrow> bridge" where
  "engine_set_rate status rate s =
     (let s1 = engine (TextToSpeechSetRate (g_ttsHandle s) rate) s
      in if status = MMSYSERR_NOERROR then s1\<lparr>engine_rate := rate\<rparr> else s1)"

text \<open>
  What the environment answers during one call of the bridge: the result of
  \<open>get_dictionary_path\<close>, the status of each engine call the bridge inspects, the handle
  \<open>TextToSpeechStartupExFonix\<close> stores, whether \<open>malloc\<close> fails, the notifications the
  engine sends while \<open>TextToSpeechSpeak\<close> and \<open>TextToSpeechSync\<close> run, and the buffers
  successive \<open>TextToSpeechReturnBuffer\<close> calls hand back before one reports an error or
  no buffer. The engine holds finitely many buffers, so that list is finite.
\<close>

datatype notification = Notify tts_msg "fill option"

record environment =
  dict_path :: "string option"
  startup_status :: MMRESULT
  startup_handle :: "handle option"
  open_status :: MMRESULT
  malloc_fails :: bool
  speak_status :: MMRESULT
  speak_events :: "notification list"
  sync_events :: "notification list"
  returned :: "fill list"

subsection \<open>Capture: the callback and the copy into the output buffer\<close>

text \<open>\<open>memcpy(dest, bytes, n)\<close> on the caller's memory.\<close>

definition memcpy :: "(int \<Rightarrow> 8 word) \<Rightarrow> int \<Rightarrow> (nat \<Rightarrow> 8 word) \<Rightarrow> int \<Rightarrow> (int \<Rightarrow> 8 word)" where
  "memcpy h dest bytes n = (\<lambda>a. if dest \<le> a \<and> a < dest + n then bytes (nat (a - dest)) else h a)"

text \<open>
  The bytes at a buffer's \<open>lpData\<close>. Every pool buffer points at its row from
  \<open>dectalk_init\<close> on, before the engine exists; a \<open>NULL\<close> pointer reads as zeros here.
\<close>

definition lpData_bytes :: "bridge \<Rightarrow> TTS_BUFFER_T \<Rightarrow> nat \<Rightarrow> 8 word" where
  "lpData_bytes s b = (case lpData b of None \<Rightarrow> (\<lambda>k. 0) | Some r \<Rightarrow> g_bufferData s r)"

text \<open>
  The clamp and copy that \<open>ttsCallback\<close> and the drain loop of \<open>dectalk_synthesize\<close>
  both spell out: \<open>samplesToWrite\<close>, \<open>remainingSpace\<close>, the clamp, and the \<open>memcpy\<close>
  guarded by \<open>samplesToWrite > 0\<close>.
\<close>

definition copy_samples :: "TTS_BUFFER_T \<Rightarrow> bridge \<Rightarrow> bridge" where
  "copy_samples pBuf s =
     (let samplesToWrite = dwBufferLength pBuf div 2;
          remainingSpace = g_outputBufferSize s - g_outputSamplesWritten s;
          samplesToWrite = (if remainingSpace <s samplesToWrite then remainingSpace
                            else samplesToWrite)
      in if 0 <s samplesToWrite then
           s\<lparr>heap := memcpy (heap s)
                        (g_outputBuffer s + 2 * sint (g_outputSamplesWritten s))
                        (lpData_bytes s pBuf) (2 * sint samplesToWrite),
             g_outputSamplesWritten := g_outputSamplesWritten s + samplesToWrite\<rparr>
         else s)"

text \<open>\<open>lParam2\<close> is the index of the buffer it points at, \<open>None\<close> for \<open>NULL\<close>.\<close>

definition ttsCallback :: "tts_msg \<Rightarrow> nat option \<Rightarrow> bridge \<Rightarrow> bridge" where
  "ttsCallback uiMsg lParam2 s =
     (if uiMsg = TTS_MSG_BUFFER then
        (case lParam2 of
           None \<Rightarrow> s
         | Some i \<Rightarrow>
             if 0 < dwBufferLength (g_ttsBuffers s i) \<and> g_outputBuffer s \<noteq> 0 then
               let s1 = copy_samples (g_ttsBuffers s i) s;
                   s2 = s1\<lparr>g_ttsBuffers :=
                             (g_ttsBuffers s1)(i := (g_ttsBuffers s1 i)\<lparr>dwBufferLength := 0\<rparr>)\<rparr>
               in engine (TextToSpeechAddBuffer (g_ttsHandle s2) i) s2
             else s)
      else s)"

fun notify :: "notification \<Rightarrow> bridge \<Rightarrow> bridge" where
  "notify (Notify uiMsg None) s = ttsCallback uiMsg None s"
| "notify (Notify uiMsg (Some f)) s = ttsCallback uiMsg (Some (chunk f)) (engine_fill f s)"

definition deliver :: "notification list \<Rightarrow> bridge \<Rightarrow> bridge" where
  "deliver ns s = fold notify ns s"

text \<open>One iteration of the drain loop, for a buffer \<open>TextToSpeechReturnBuffer\<close> handed back.\<close>

definition drain_step :: "fill \<Rightarrow> bridge \<Rightarrow> bridge" where
  "drain_step f s =
     (let s1 = engine_fill f (engine (TextToSpeechReturnBuffer (g_ttsHandle s)) s);
          pLastBuffer = g_ttsBuffers s1 (chunk f)
      in if 0 < dwBufferLength pLastBuffer then copy_samples pLastBuffer s1 else s1)"

fun drain :: "fill list \<Rightarrow> bridge \<Rightarrow> bridge" where
  "drain [] s = engine (TextToSpeechReturnBuffer (g_ttsHandle s)) s"
| "drain (f # fs) s = drain fs (drain_step f s)"

subsection \<open>Session lifecycle and voice\<close>

definition init_buffer :: "nat \<Rightarrow> bridge \<Rightarrow> bridge" where
  "init_buffer i s =
     s\<lparr>g_ttsBuffers := (g_ttsBuffers s)
         (i := zero_buffer\<lparr>lpData := Some i, dwMaximumBufferLength := BUFFER_SIZE\<rparr>)\<rparr>"

definition dectalk_init :: "environment \<Rightarrow> bridge \<Rightarrow> DECtalkError \<times> bridge" where
  "dectalk_init env s =
     (if g_initialized s then (DECtalkErrorNone, s)
      else
        let s1 = fold init_buffer [0..<NUM_BUFFERS] s;
            s2 = (engine (TextToSpeechStartupExFonix (dict_path env)) s1)
                   \<lparr>g_ttsHandle := startup_handle env\<rparr>
        in if startup_status env \<noteq> MMSYSERR_NOERROR then (DECtalkErrorInitFailed, s2)
           else (DECtalkErrorNone, s2\<lparr>g_initialized := True, g_currentVoice := DECtalkVoicePaul\<rparr>))"

definition dectalk_shutdown :: "bridge \<Rightarrow> bridge" where
  "dectalk_shutdown s =
     (if g_initialized s \<and> g_ttsHandle s \<noteq> None then
        let s1 = (if g_inMemoryOpen s
                  then (engine (TextToSpeechCloseInMemory (g_ttsHandle s)) s)\<lparr>g_inMemoryOpen := False\<rparr>
                  else s);
            s2 = engine (TextToSpeechShutdown (g_ttsHandle s1)) s1
        in s2\<lparr>g_ttsHandle := None, g_initialized := False\<rparr>
      else s)"

definition dectalk_set_voice :: "int \<Rightarrow> bridge \<Rightarrow> DECtalkError \<times> bridge" where
  "dectalk_set_voice voice s =
     (if voice < 0 \<or> voice \<ge> DECtalkVoiceCount then (DECtalkErrorInvalidVoice, s)
      else
        let s1 = s\<lparr>g_currentVoice := voice\<rparr>
        in if g_initialized s1 \<and> g_ttsHandle s1 \<noteq> None
           then (DECtalkErrorNone, engine (TextToSpeechSetSpeaker (g_ttsHandle s1) voice) s1)
           else (DECtalkErrorNone, s1))"

definition dectalk_get_voice :: "bridge \<Rightarrow> int" where
  "dectalk_get_voice s = g_currentVoice s"

subsection \<open>Rate\<close>

text \<open>The first argument is the status the engine answers.\<close>

definition dectalk_set_rate :: "MMRESULT \<Rightarrow> int32_t \<Rightarrow> bridge \<Rightarrow> int32_t \<times> bridge" where
  "dectalk_set_rate status wpm s =
     (if g_initialized s \<and> g_ttsHandle s \<noteq> None then
        let wpm = (if wpm <s 75 then 75 else wpm);
            wpm = (if 600 <s wpm then 600 else wpm)
        in (if status = MMSYSERR_NOERROR then 0 else - 1, engine_set_rate status wpm s)
      else (- 1, s))"

definition dectalk_get_rate :: "MMRESULT \<Rightarrow> bridge \<Rightarrow> int32_t \<times> bridge" where
  "dectalk_get_rate status s =
     (if g_initialized s \<and> g_ttsHandle s \<noteq> None then
        let s1 = engine (TextToSpeechGetRate (g_ttsHandle s)) s
        in if status = MMSYSERR_NOERROR then (engine_rate s1, s1) else (180, s1)
      else (180, s))"

subsection \<open>Synthesis\<close>

text \<open>\<open>g_ttsBuffers[i].dwBufferLength = 0; TextToSpeechAddBuffer(g_ttsHandle, &g_ttsBuffers[i]);\<close>\<close>

definition queue_buffer :: "nat \<Rightarrow> bridge \<Rightarrow> bridge" where
  "queue_buffer i s =
     engine (TextToSpeechAddBuffer (g_ttsHandle s) i)
       (s\<lparr>g_ttsBuffers := (g_ttsBuffers s)(i := (g_ttsBuffers s i)\<lparr>dwBufferLength := 0\<rparr>)\<rparr>)"

text \<open>
  \<open>g_outputBuffer = buffer; g_outputBufferSize = bufferSize; g_outputSamplesWritten = 0;\<close>
\<close>

definition install_sink :: "int \<Rightarrow> int32_t \<Rightarrow> bridge \<Rightarrow> bridge" where
  "install_sink buffer bufferSize s =
     s\<lparr>g_outputBuffer := buffer, g_outputBufferSize := bufferSize, g_outputSamplesWritten := 0\<rparr>"

text \<open>
  From the sink's installation to the speaker setting: the state in which the text is
  then submitted, or \<open>False\<close> with the state in which the call returns when
  \<open>TextToSpeechOpenInMemory\<close> fails.
\<close>

definition synthesize_prepare :: "environment \<Rightarrow> int \<Rightarrow> int32_t \<Rightarrow> bridge \<Rightarrow> bool \<times> bridge" where
  "synthesize_prepare env buffer bufferSize s =
     (let s1 = install_sink buffer bufferSize s;
          s2 = (if \<not> g_inMemoryOpen s1
                then engine (TextToSpeechOpenInMemory (g_ttsHandle s1)) s1 else s1)
      in if \<not> g_inMemoryOpen s1 \<and> open_status env \<noteq> MMSYSERR_NOERROR then (False, s2)
         else
           let s3 = s2\<lparr>g_inMemoryOpen := True\<rparr>;
               s4 = fold queue_buffer [0..<NUM_BUFFERS] s3
           in (True, engine (TextToSpeechSetSpeaker (g_ttsHandle s4) (g_currentVoice s4)) s4))"

text \<open>
  The part of \<open>dectalk_synthesize\<close> after the argument check. \<open>g_currentVoice\<close> indexes
  \<open>g_voiceCommands\<close> unchecked; \<open>dectalk_set_voice\<close> and \<open>dectalk_init\<close>, its only
  writers, keep it inside the table. \<open>cell\<close> is the value at \<open>samplesWritten\<close> before
  the call, and the result carries the value after it.
\<close>

definition synthesize_body ::
  "environment \<Rightarrow> string \<Rightarrow> int \<Rightarrow> int32_t \<Rightarrow> int32_t \<Rightarrow> bridge \<Rightarrow> (DECtalkError \<times> int32_t) \<times> bridge" where
  "synthesize_body env text buffer bufferSize cell s =
     (case synthesize_prepare env buffer bufferSize s of
        (False, s2) \<Rightarrow> ((DECtalkErrorSynthFailed, cell), s2)
      | (True, s5) \<Rightarrow>
          if malloc_fails env then ((DECtalkErrorSynthFailed, cell), s5)
          else
            let fullText = g_voiceCommands ! nat (g_currentVoice s5) @ c_str text;
                s6 = deliver (speak_events env)
                       (engine (TextToSpeechSpeak (g_ttsHandle s5) fullText) s5)
            in if speak_status env \<noteq> MMSYSERR_NOERROR
               then ((DECtalkErrorSynthFailed, cell), s6)
               else
                 let s7 = deliver (sync_events env)
                            (engine (TextToSpeechSync (g_ttsHandle s6)) s6);
                     s8 = drain (returned env) s7
                 in ((DECtalkErrorNone, g_outputSamplesWritten s8), s8))"

text \<open>
  \<open>text\<close> is \<open>None\<close> for \<open>NULL\<close>, \<open>buffer\<close> a byte address (0 for \<open>NULL\<close>), and
  \<open>samplesWritten\<close> is \<open>None\<close> for \<open>NULL\<close> and otherwise the value of the cell it points
  at. The result carries the cell's value after the call.
\<close>

definition dectalk_synthesize ::
  "environment \<Rightarrow> string option \<Rightarrow> int \<Rightarrow> int32_t \<Rightarrow> int32_t option \<Rightarrow> bridge
     \<Rightarrow> (DECtalkError \<times> int32_t option) \<times> bridge" where
  "dectalk_synthesize env text buffer bufferSize samplesWritten s =
     (let (result, s0) = (if \<not> g_initialized s then dectalk_init env s
                          else (DECtalkErrorNone, s))
      in if result \<noteq> DECtalkErrorNone then ((result, samplesWritten), s0)
         else
           (case (text, samplesWritten) of
              (Some t, Some cell) \<Rightarrow>
                if buffer = 0 then ((DECtalkErrorSynthFailed, samplesWritten), s0)
                else
                  (case synthesize_body env t buffer bufferSize cell s0 of
                     ((e, cell'), s') \<Rightarrow> ((e, Some cell'), s'))
            | _ \<Rightarrow> ((DECtalkErrorSynthFailed, samplesWritten), s0)))"


section \<open>Vocabulary of the claims\<close>

subsection \<open>Capture steps\<close>

text \<open>
  A copy step is a fill notification (the engine fills a pool buffer and calls
  \<open>ttsCallback\<close> with \<open>TTS_MSG_BUFFER\<close>) or one iteration of the drain loop.
\<close>

datatype capture_step = Fill_notification fill | Drain_iteration fill

fun capture :: "capture_step \<Rightarrow> bridge \<Rightarrow> bridge" where
  "capture (Fill_notification f) s = notify (Notify TTS_MSG_BUFFER (Some f)) s"
| "capture (Drain_iteration f) s = drain_step f s"

definition capture_run :: "capture_step list \<Rightarrow> bridge \<Rightarrow> bridge" where
  "capture_run steps s = fold capture steps s"

fun step_fill :: "capture_step \<Rightarrow> fill" where
  "step_fill (Fill_notification f) = f"
| "step_fill (Drain_iteration f) = f"

text \<open>The bytes at the data pointer of the buffer the engine has just filled.\<close>

definition chunk_bytes :: "fill \<Rightarrow> bridge \<Rightarrow> nat \<Rightarrow> 8 word" where
  "chunk_bytes f s = lpData_bytes (engine_fill f s) (g_ttsBuffers (engine_fill f s) (chunk f))"

text \<open>
  The copy steps of one call of \<open>dectalk_synthesize\<close>: the fill notifications among what
  the engine sends while the text is submitted and while it is synchronised (a
  notification with another message or without a buffer is no copy step), then the
  buffers the drain loop pulls.
\<close>

fun as_step :: "notification \<Rightarrow> capture_step list" where
  "as_step (Notify TTS_MSG_BUFFER (Some f)) = [Fill_notification f]"
| "as_step n = []"

definition buffer_fills :: "notification list \<Rightarrow> capture_step list" where
  "buffer_fills ns = concat (map as_step ns)"

definition captured_steps :: "environment \<Rightarrow> capture_step list" where
  "captured_steps env =
     buffer_fills (speak_events env) @ buffer_fills (sync_events env)
       @ map Drain_iteration (returned env)"

text \<open>Two states agree on what capture reads and writes: the caller's memory, the sink,
  and where each pool buffer's data pointer points.\<close>

definition same_capture :: "bridge \<Rightarrow> bridge \<Rightarrow> bool" where
  "same_capture a b =
     (heap a = heap b \<and> g_outputBuffer a = g_outputBuffer b
      \<and> g_outputBufferSize a = g_outputBufferSize b
      \<and> g_outputSamplesWritten a = g_outputSamplesWritten b
      \<and> (\<forall>i. lpData (g_ttsBuffers a i) = lpData (g_ttsBuffers b i)))"

text \<open>The sink's buffer and capacity, and the callback's test for an active sink.\<close>

definition sink_of :: "bridge \<Rightarrow> int \<times> int32_t" where
  "sink_of s = (g_outputBuffer s, g_outputBufferSize s)"

definition sink_active :: "bridge \<Rightarrow> bool" where
  "sink_active s = (g_outputBuffer s \<noteq> 0)"

text \<open>The number of samples a copy step is to move: the chunk's samples, clamped to the
  room left.\<close>

definition copied :: "TTS_BUFFER_T \<Rightarrow> bridge \<Rightarrow> int" where
  "copied b s = min (uint (dwBufferLength b) div 2)
                    (sint (g_outputBufferSize s) - sint (g_outputSamplesWritten s))"

text \<open>The sink's running count lies between 0 and its capacity.\<close>

definition sink_ok :: "bridge \<Rightarrow> bool" where
  "sink_ok s = (0 \<le> sint (g_outputSamplesWritten s)
                \<and> sint (g_outputSamplesWritten s) \<le> sint (g_outputBufferSize s))"

subsection \<open>Rate and release\<close>

definition clamp :: "int \<Rightarrow> int \<Rightarrow> int \<Rightarrow> int" where
  "clamp x lo hi = max lo (min x hi)"

text \<open>How often the session handle has been released.\<close>

fun is_release :: "engine_call \<Rightarrow> bool" where
  "is_release (TextToSpeechShutdown h) = True"
| "is_release c = False"

definition releases :: "bridge \<Rightarrow> nat" where
  "releases s = length (filter is_release (engine_log s))"

subsection \<open>Concrete inputs\<close>

definition blank :: "nat \<Rightarrow> char" where
  "blank i = CHR ''.''"

definition malformed_scan :: ssml_scan where
  "malformed_scan = \<lparr>src = ''&#999;Y'', dst = 0, written = 0, inTag = False, out_mem = blank\<rparr>"

definition zero_heap :: "int \<Rightarrow> 8 word" where
  "zero_heap a = 0"

text \<open>The bridge before any call, an engine that accepts everything and sends nothing,
  and the bridge after a first successful \<open>dectalk_init\<close>.\<close>

definition fresh :: bridge where
  "fresh = initial_bridge zero_heap"

definition quiet_env :: environment where
  "quiet_env = \<lparr>dict_path = Some ''dtalk_us.dic'', startup_status = MMSYSERR_NOERROR,
     startup_handle = Some 1, open_status = MMSYSERR_NOERROR, malloc_fails = False,
     speak_status = MMSYSERR_NOERROR, speak_events = [], sync_events = [], returned = []\<rparr>"

definition live :: bridge where
  "live = snd (dectalk_init quiet_env fresh)"

text \<open>Two fills, of two and of four samples, and an engine that sends the first while
  it speaks and hands back the second when drained.\<close>

definition ramp :: "nat \<Rightarrow> 8 word" where
  "ramp k = word_of_nat k"

definition two_samples :: fill where
  "two_samples = \<lparr>chunk = 0, filled = 4, pcm = ramp\<rparr>"

definition four_samples :: fill where
  "four_samples = \<lparr>chunk = 1, filled = 8, pcm = ramp\<rparr>"

definition busy_env :: environment where
  "busy_env = quiet_env\<lparr>speak_events := [Notify TTS_MSG_BUFFER (Some two_samples)],
                         returned := [four_samples]\<rparr>"

section \<open>Properties of the extractor\<close>

subsection \<open>Signed 32-bit arithmetic\<close>

lemma sint32_range: "- 2147483648 \<le> sint (x::int32_t) \<and> sint x < 2147483648"
  using sint_ge [of x] sint_lt [of x] by simp

lemma sint32_add:
  "- 2147483648 \<le> sint (x::int32_t) + sint y \<Longrightarrow> sint x + sint y < 2147483648
   \<Longrightarrow> sint (x + y) = sint x + sint y"
  by (simp add: sint_word_ariths signed_take_bit_int_eq_self)

lemma sint32_diff:
  "- 2147483648 \<le> sint (x::int32_t) - sint y \<Longrightarrow> sint x - sint y < 2147483648
   \<Longrightarrow> sint (x - y) = sint x - sint y"
  by (simp add: sint_word_ariths signed_take_bit_int_eq_self)

lemma sint32_succ: "x <s (y::int32_t) \<Longrightarrow> sint (x + 1) = sint x + 1"
  using sint32_range [of x] sint32_range [of y] sint32_add [of x 1]
  by (simp add: word_sless_alt)

lemma sint32_pred: "0 <s (y::int32_t) \<Longrightarrow> sint (y - 1) = sint y - 1"
  using sint32_range [of y] sint32_diff [of y 1]
  by (simp add: word_sless_alt)

lemma sint32_half: "sint ((l::32 word) div 2) = uint l div 2"
proof -
  have "uint l < 4294967296" using uint_lt2p [of l] by simp
  then have hi: "uint l div 2 < 2 ^ 31" by simp
  have "(0::int) \<le> uint l div 2" by simp
  then have lo: "- (2 ^ 31) \<le> uint l div 2" by (rule order_trans [rotated]) simp
  have u: "uint (l div 2) = uint l div 2" by (simp add: uint_div)
  have "sint (l div 2) = signed_take_bit 31 (uint (l div 2))"
    by (simp add: sint_uint)
  also have "\<dots> = uint l div 2"
    unfolding u by (rule signed_take_bit_int_eq_self [OF lo hi])
  finally show ?thesis .
qed

subsection \<open>The entity block against the table\<close>

lemma peek_simps [simp]: "peek [] = CHR 0x00" "peek (c # cs) = c"
  by (simp_all add: peek_def)

lemma semi_in_take:
  "(c \<in> set (take n p)) = (c \<in> set p \<and> length (takeWhile (\<lambda>x. x \<noteq> c) p) < n)"
proof (induction p arbitrary: n)
  case Nil
  then show ?case by simp
next
  case (Cons a p)
  then show ?case by (cases n) auto
qed

lemma numeric_entity_eq:
  assumes "peek p = CHR ''&''" and "peek (drop 1 p) = CHR ''#''"
  shows "(case numeric_entity p of Some (c, semi) \<Rightarrow> Some (c, semi + 1) | None \<Rightarrow> None)
         = decimal_entity p"
proof -
  from assms have t: "take 2 p = ''&#''"
    by (cases p; cases "tl p") auto
  show ?thesis
    by (simp add: numeric_entity_def decimal_entity_def strchr_def t semi_in_take
          split: option.split)
qed

lemma decimal_entity_None:
  "\<not> (peek p = CHR ''&'' \<and> peek (drop 1 p) = CHR ''#'') \<Longrightarrow> decimal_entity p = None"
  by (cases p; cases "tl p") (auto simp: decimal_entity_def)

lemma decode_not_amp: "peek p \<noteq> CHR ''&'' \<Longrightarrow> decode p = None"
  by (cases p) (auto simp: decode_def entity_table_def decimal_entity_def)

lemma entity_decode: "entity p = decode p"
proof (cases "peek p = CHR ''&''")
  case False
  then show ?thesis
    by (simp add: entity_def decode_not_amp)
next
  case True
  have n: "(if peek p = CHR ''&'' \<and> peek (drop 1 p) = CHR ''#''
            then (case numeric_entity p of Some (c, semi) \<Rightarrow> Some (c, semi + 1) | None \<Rightarrow> None)
            else None) = decimal_entity p"
    using numeric_entity_eq [of p] decimal_entity_None [of p] by (simp split: if_split)
  show ?thesis
    unfolding entity_def decode_def n entity_table_def
    by (simp add: True strncmp_eq_def eval_nat_numeral)
qed

subsection \<open>One iteration\<close>

lemma store_chars_Nil [simp]: "store_chars mem d [] = mem"
  by (rule ext) (auto simp: store_chars_def)

lemma store_chars_Cons: "store_chars (mem(d := c)) (Suc d) xs = store_chars mem d (c # xs)"
  by (rule ext) (auto simp: store_chars_def nth_Cons' Suc_diff_le)

lemma store_chars_snoc: "(store_chars mem d xs)(d + length xs := c) = store_chars mem d (xs @ [c])"
  by (rule ext) (auto simp: store_chars_def nth_append)

lemma ssml_step_Cons:
  "src s = c # cs \<Longrightarrow>
   ssml_step s =
     (if c = CHR ''<'' then s\<lparr>inTag := True, src := cs\<rparr>
      else if c = CHR ''>'' then s\<lparr>inTag := False, src := cs\<rparr>
      else if \<not> inTag s then
        (case entity (c # cs) of
           Some (ch, n) \<Rightarrow> emit ch n s
         | None \<Rightarrow> emit c 1 s)
      else s\<lparr>src := cs\<rparr>)"
  by (simp add: ssml_step_def Let_def split: option.split)

text \<open>An iteration either stores nothing or stores the next character of \<open>ssml_text\<close>.\<close>

lemma ssml_step_text:
  assumes "src s \<noteq> []"
  shows "(dst (ssml_step s) = dst s \<and> written (ssml_step s) = written s
            \<and> out_mem (ssml_step s) = out_mem s
            \<and> ssml_text (inTag s) (src s) = ssml_text (inTag (ssml_step s)) (src (ssml_step s)))
       \<or> (\<exists>ch. dst (ssml_step s) = dst s + 1 \<and> written (ssml_step s) = written s + 1
            \<and> out_mem (ssml_step s) = (out_mem s)(dst s := ch)
            \<and> ssml_text (inTag s) (src s) = ch # ssml_text (inTag (ssml_step s)) (src (ssml_step s)))"
proof -
  from assms obtain c cs where p: "src s = c # cs" by (cases "src s") auto
  consider (lt) "c = CHR ''<''" | (gt) "c \<noteq> CHR ''<''" "c = CHR ''>''"
    | (tag) "c \<noteq> CHR ''<''" "c \<noteq> CHR ''>''" "inTag s"
    | (plain) "c \<noteq> CHR ''<''" "c \<noteq> CHR ''>''" "\<not> inTag s" "entity (c # cs) = None"
    | (ent) ch n where "c \<noteq> CHR ''<''" "c \<noteq> CHR ''>''" "\<not> inTag s" "entity (c # cs) = Some (ch, n)"
    by (cases "entity (c # cs)") auto
  then show ?thesis
  proof cases
    case lt
    then show ?thesis by (simp add: ssml_step_Cons [OF p] p)
  next
    case gt
    then show ?thesis by (simp add: ssml_step_Cons [OF p] p)
  next
    case tag
    then show ?thesis by (simp add: ssml_step_Cons [OF p] p)
  next
    case plain
    then have "decode (c # cs) = None" by (simp add: entity_decode)
    with plain show ?thesis by (simp add: ssml_step_Cons [OF p] p emit_def)
  next
    case ent
    then have d: "decode (c # cs) = Some (ch, n)" by (simp add: entity_decode)
    from ent have "0 < n" by (auto dest: entity_advances)
    then have dr: "drop n (c # cs) = drop (n - 1) cs" by (cases n) auto
    from ent d dr show ?thesis by (simp add: ssml_step_Cons [OF p] p emit_def)
  qed
qed

lemma ssml_step_src: "set (src (ssml_step s)) \<subseteq> set (src s)"
proof (cases "src s")
  case Nil
  then show ?thesis
    by (simp add: ssml_step_def Let_def split: option.split)
next
  case (Cons c cs)
  have "set (drop n (c # cs)) \<subseteq> set (c # cs)" for n
    by (rule set_drop_subset)
  then show ?thesis
    by (auto simp: ssml_step_Cons [OF Cons] Cons split: option.split)
qed

subsection \<open>The loop\<close>

lemma ssml_loop_text:
  assumes "0 <s maxLength" and "CHR 0x00 \<notin> set (src s)" and "sint (written s) = int (dst s)"
  shows "dst (ssml_loop maxLength s) =
           dst s + length (take (nat (sint maxLength - 1) - dst s) (ssml_text (inTag s) (src s)))
       \<and> sint (written (ssml_loop maxLength s)) = int (dst (ssml_loop maxLength s))
       \<and> out_mem (ssml_loop maxLength s) =
           store_chars (out_mem s) (dst s)
             (take (nat (sint maxLength - 1) - dst s) (ssml_text (inTag s) (src s)))"
  using assms
proof (induction maxLength s rule: ssml_loop.induct)
  case (1 m s)
  have m1: "sint (m - 1) = sint m - 1" using "1.prems"(1) by (rule sint32_pred)
  show ?case
  proof (cases "peek (src s) \<noteq> CHR 0x00 \<and> written s <s m - 1")
    case False
    have e: "take (nat (sint m - 1) - dst s) (ssml_text (inTag s) (src s)) = []"
    proof (cases "src s")
      case Nil
      then show ?thesis by simp
    next
      case (Cons c cs)
      with "1.prems"(2) have "peek (src s) \<noteq> CHR 0x00" by auto
      with False have "\<not> written s <s m - 1" by simp
      then have "sint m - 1 \<le> int (dst s)"
        using m1 "1.prems"(3) by (simp add: word_sless_alt)
      then show ?thesis by simp
    qed
    have loop: "ssml_loop m s = s"
      using False by (subst ssml_loop.simps) auto
    show ?thesis
      unfolding loop e using "1.prems"(3) by simp
  next
    case True
    then have ne: "src s \<noteq> []" by (auto dest: peek_nonempty)
    from True have lt: "int (dst s) < sint m - 1"
      using m1 "1.prems"(3) by (simp add: word_sless_alt)
    have loop: "ssml_loop m s = ssml_loop m (ssml_step s)"
      using True by (subst ssml_loop.simps) auto
    have nul: "CHR 0x00 \<notin> set (src (ssml_step s))"
      using "1.prems"(2) ssml_step_src [of s] by auto
    from ssml_step_text [OF ne] show ?thesis
    proof (elim disjE exE conjE)
      assume a: "dst (ssml_step s) = dst s" "written (ssml_step s) = written s"
        "out_mem (ssml_step s) = out_mem s"
        "ssml_text (inTag s) (src s) = ssml_text (inTag (ssml_step s)) (src (ssml_step s))"
      have "sint (written (ssml_step s)) = int (dst (ssml_step s))"
        using a "1.prems"(3) by simp
      from "1.IH" [OF True "1.prems"(1) nul this] show ?thesis
        unfolding loop a by simp
    next
      fix ch
      assume a: "dst (ssml_step s) = dst s + 1" "written (ssml_step s) = written s + 1"
        "out_mem (ssml_step s) = (out_mem s)(dst s := ch)"
        "ssml_text (inTag s) (src s) = ch # ssml_text (inTag (ssml_step s)) (src (ssml_step s))"
      have "sint (written s + 1) = sint (written s) + 1"
        using True by (auto intro: sint32_succ)
      then have w: "sint (written (ssml_step s)) = int (dst (ssml_step s))"
        using a "1.prems"(3) by simp
      from lt obtain k where k: "nat (sint m - 1) - dst s = Suc k"
        by (cases "nat (sint m - 1) - dst s") auto
      then have k': "nat (sint m - 1) - (dst s + 1) = k" by simp
      from "1.IH" [OF True "1.prems"(1) nul w] show ?thesis
        unfolding loop a k k' by (simp add: store_chars_Cons [unfolded fun_upd_def])
    qed
  qed
qed

lemma c_str_no_NUL: "CHR 0x00 \<notin> set (c_str t)"
  unfolding c_str_def by (auto dest: set_takeWhileD)

text \<open>The whole call, for a buffer of positive size.\<close>

lemma extract_refines:
  assumes "0 <s maxLength"
  shows "sint (fst (dectalk_extract_text_from_ssml (Some t) (Some mem) maxLength))
           = int (length (extracted maxLength t))"
    and "snd (dectalk_extract_text_from_ssml (Some t) (Some mem) maxLength)
           = Some (store_chars mem 0 (extracted maxLength t @ [CHR 0x00]))"
proof -
  let ?s = "\<lparr>src = c_str t, dst = 0, written = 0, inTag = False, out_mem = mem\<rparr>"
  let ?out = "extracted maxLength t"
  have pos: "\<not> maxLength <=s 0" using assms(1) by (simp add: word_sless_alt word_sle_eq)
  have l: "dst (ssml_loop maxLength ?s) = length ?out
         \<and> sint (written (ssml_loop maxLength ?s)) = int (dst (ssml_loop maxLength ?s))
         \<and> out_mem (ssml_loop maxLength ?s) = store_chars mem 0 ?out"
    using ssml_loop_text [of maxLength ?s] assms(1) c_str_no_NUL [of t]
    by (simp add: extracted_def)
  show "sint (fst (dectalk_extract_text_from_ssml (Some t) (Some mem) maxLength)) = int (length ?out)"
    using l pos by (simp add: dectalk_extract_text_from_ssml_def Let_def)
  show "snd (dectalk_extract_text_from_ssml (Some t) (Some mem) maxLength)
          = Some (store_chars mem 0 (?out @ [CHR 0x00]))"
    using l pos store_chars_snoc [of mem 0 ?out "CHR 0x00"]
    by (simp add: dectalk_extract_text_from_ssml_def Let_def)
qed

lemma ssml_iterate_loop:
  "length (src s) \<le> k \<Longrightarrow> ssml_iterate k maxLength s = Some (ssml_loop maxLength s)"
proof (induction k arbitrary: s)
  case 0
  then have "peek (src s) = CHR 0x00" by simp
  then show ?case by (subst ssml_loop.simps) simp
next
  case (Suc k)
  show ?case
  proof (cases "peek (src s) \<noteq> CHR 0x00 \<and> written s <s maxLength - 1")
    case True
    then have "length (src (ssml_step s)) < length (src s)"
      by (simp add: ssml_step_progress)
    with Suc.prems have "length (src (ssml_step s)) \<le> k" by simp
    from Suc.IH [OF this] True show ?thesis
      by (subst ssml_loop.simps) simp
  next
    case False
    then show ?thesis by (subst ssml_loop.simps) auto
  qed
qed

lemma map_store_chars: "map (store_chars mem 0 (xs @ ys)) [0..<length xs] = xs"
  by (rule nth_equalityI) (simp_all add: store_chars_def nth_append)

subsection \<open>Claims about the extractor\<close>

text \<open>
  C7. For every input string and every \<open>maxLength > 0\<close> the characters the scan stores
  are those of \<open>extracted maxLength t\<close>, at most \<open>maxLength - 1\<close> of them: the write
  pointer ends that many places beyond the start of the buffer, the buffer holds them
  from its start on, one NUL right after the last of them, and the memory beyond as it
  was; the value returned is their number, the terminator not counted.
\<close>

theorem extract_bounded:
  "0 <s maxLength \<Longrightarrow>
   int (length (extracted maxLength t)) \<le> sint maxLength - 1
   \<and> dst (ssml_loop maxLength
            \<lparr>src = c_str t, dst = 0, written = 0, inTag = False, out_mem = mem\<rparr>)
       = length (extracted maxLength t)
   \<and> sint (fst (dectalk_extract_text_from_ssml (Some t) (Some mem) maxLength))
       = int (length (extracted maxLength t))
   \<and> snd (dectalk_extract_text_from_ssml (Some t) (Some mem) maxLength)
       = Some (store_chars mem 0 (extracted maxLength t @ [CHR 0x00]))"
proof -
  assume m: "0 <s maxLength"
  have 1: "int (length (extracted maxLength t)) \<le> sint maxLength - 1"
    using m by (simp add: extracted_def word_sless_alt)
  have 2: "dst (ssml_loop maxLength
                  \<lparr>src = c_str t, dst = 0, written = 0, inTag = False, out_mem = mem\<rparr>)
             = length (extracted maxLength t)"
    using ssml_loop_text
            [of maxLength "\<lparr>src = c_str t, dst = 0, written = 0, inTag = False, out_mem = mem\<rparr>"]
      m c_str_no_NUL [of t]
    by (simp add: extracted_def)
  from 1 2 extract_refines [OF m, of t mem] show ?thesis by simp
qed

theorem extract_bounded_witness:
  "0 <s (4::int32_t)
   \<and> extracted 4 ''x&amp;<b>y</b>z'' = ''x&y''
   \<and> int (length (extracted 4 ''x&amp;<b>y</b>z'')) \<le> sint (4::int32_t) - 1
   \<and> dst (ssml_loop 4
            \<lparr>src = c_str ''x&amp;<b>y</b>z'', dst = 0, written = 0, inTag = False,
              out_mem = blank\<rparr>) = 3
   \<and> sint (fst (dectalk_extract_text_from_ssml (Some ''x&amp;<b>y</b>z'') (Some blank) 4)) = 3
   \<and> snd (dectalk_extract_text_from_ssml (Some ''x&amp;<b>y</b>z'') (Some blank) 4)
       = Some (store_chars blank 0 (''x&y'' @ [CHR 0x00]))
   \<and> map (store_chars blank 0 (''x&y'' @ [CHR 0x00])) [0, 1, 2, 3, 4]
       = [CHR ''x'', CHR ''&'', CHR ''y'', CHR 0x00, CHR ''.'']"
proof -
  have h: "0 <s (4::int32_t)" by (simp add: word_sless_alt)
  have e: "extracted 4 ''x&amp;<b>y</b>z'' = ''x&y''" by code_simp
  have v: "map (store_chars blank 0 (''x&y'' @ [CHR 0x00])) [0, 1, 2, 3, 4]
             = [CHR ''x'', CHR ''&'', CHR ''y'', CHR 0x00, CHR ''.'']"
    by (simp add: store_chars_def blank_def)
  from h extract_bounded [OF h, of "''x&amp;<b>y</b>z''" blank] e v show ?thesis by simp
qed

text \<open>
  C8. Every iteration of the scan loop shortens the unread input by at least one
  character; where the entity block decodes nothing at an ampersand outside a tag (the
  case of a malformed or out-of-range numeric entity) it shortens it by exactly one. So
  the loop is over after at most as many iterations as the input has characters: run on
  that budget it does not give up and ends in the state the loop ends in.
\<close>

theorem ssml_scan_terminates:
  "(peek (src s) \<noteq> CHR 0x00 \<and> written s <s maxLength - 1
      \<longrightarrow> length (src (ssml_step s)) < length (src s))
   \<and> (peek (src s) = CHR ''&'' \<and> \<not> inTag s \<and> entity (src s) = None
      \<longrightarrow> src (ssml_step s) = drop 1 (src s))
   \<and> ssml_iterate (length (src s)) maxLength s = Some (ssml_loop maxLength s)"
proof (intro conjI impI)
  assume "peek (src s) \<noteq> CHR 0x00 \<and> written s <s maxLength - 1"
  then show "length (src (ssml_step s)) < length (src s)"
    by (simp add: ssml_step_progress)
next
  assume "peek (src s) = CHR ''&'' \<and> \<not> inTag s \<and> entity (src s) = None"
  then show "src (ssml_step s) = drop 1 (src s)"
    by (simp add: ssml_step_def Let_def)
next
  show "ssml_iterate (length (src s)) maxLength s = Some (ssml_loop maxLength s)"
    by (rule ssml_iterate_loop) simp
qed

theorem ssml_scan_terminates_witness:
  "(peek (src malformed_scan) \<noteq> CHR 0x00 \<and> written malformed_scan <s 16 - 1)
   \<and> (peek (src malformed_scan) = CHR ''&'' \<and> \<not> inTag malformed_scan
        \<and> entity (src malformed_scan) = None)
   \<and> length (src (ssml_step malformed_scan)) < length (src malformed_scan)
   \<and> src (ssml_step malformed_scan) = ''#999;Y''
   \<and> ssml_iterate (length (src malformed_scan)) 16 malformed_scan
        = Some (ssml_loop 16 malformed_scan)"
proof -
  have e: "entity (src malformed_scan) = None" by code_simp
  have c: "peek (src malformed_scan) \<noteq> CHR 0x00 \<and> written malformed_scan <s 16 - 1"
    by (simp add: malformed_scan_def word_sless_alt)
  have p: "peek (src malformed_scan) = CHR ''&'' \<and> \<not> inTag malformed_scan
             \<and> entity (src malformed_scan) = None"
    using e by (simp add: malformed_scan_def)
  have d: "drop 1 (src malformed_scan) = ''#999;Y''"
    by (simp add: malformed_scan_def)
  note t = ssml_scan_terminates [of malformed_scan 16]
  from t c have 1: "length (src (ssml_step malformed_scan)) < length (src malformed_scan)"
    by blast
  from t p have "src (ssml_step malformed_scan) = drop 1 (src malformed_scan)"
    by blast
  with d have 2: "src (ssml_step malformed_scan) = ''#999;Y''" by simp
  from t have 3: "ssml_iterate (length (src malformed_scan)) 16 malformed_scan
                    = Some (ssml_loop 16 malformed_scan)"
    by blast
  from c p 1 2 3 show ?thesis by blast
qed

text \<open>
  C10. A call with \<open>ssml == NULL\<close>, \<open>plainText == NULL\<close> or \<open>maxLength <= 0\<close> returns 0
  and leaves the output buffer as it was, without a terminator.
\<close>

theorem extract_guard:
  "ssml = None \<or> plainText = None \<or> maxLength <=s 0 \<Longrightarrow>
   dectalk_extract_text_from_ssml ssml plainText maxLength = (0, plainText)"
  by (cases ssml; cases plainText) (auto simp: dectalk_extract_text_from_ssml_def)

theorem extract_guard_witness:
  "((None :: string option) = None \<or> Some blank = None \<or> (5::int32_t) <=s 0)
   \<and> dectalk_extract_text_from_ssml None (Some blank) 5 = (0, Some blank)
   \<and> (Some ''hi'' = None \<or> (None :: (nat \<Rightarrow> char) option) = None \<or> (5::int32_t) <=s 0)
   \<and> dectalk_extract_text_from_ssml (Some ''hi'') None 5 = (0, None)
   \<and> (Some ''hi'' = None \<or> Some blank = None \<or> (- 3::int32_t) <=s 0)
   \<and> dectalk_extract_text_from_ssml (Some ''hi'') (Some blank) (- 3) = (0, Some blank)"
  using extract_guard [of None "Some blank" 5] extract_guard [of "Some ''hi''" None 5]
    extract_guard [of "Some ''hi''" "Some blank" "- 3"]
  by (simp add: word_sle_eq)

text \<open>
  C3, as stated, fails on the code. The input \<open>a>b\<close> has no tag, so the claim has its
  three characters copied unchanged, but the scan drops the \<open>>\<close>. The input \<open>&#65x;\<close>
  is a malformed numeric entity, so the claim has it emitted literally, but the scan
  decodes it to \<open>A\<close>.
\<close>

theorem extract_claim_counterexample:
  "output_text (dectalk_extract_text_from_ssml (Some ''a>b'') (Some blank) 16) = ''ab''
   \<and> output_text (dectalk_extract_text_from_ssml (Some ''&#65x;'') (Some blank) 16) = ''A''"
  by code_simp

text \<open>
  C3, amended. For every input string and every \<open>maxLength > 0\<close> the text left in the
  buffer, followed by a NUL, is \<open>ssml_text\<close> of the input cut to \<open>maxLength - 1\<close>
  characters: one left-to-right scan that drops every \<open><\<close> and every \<open>>\<close> (also a
  \<open>>\<close> outside a tag) and everything between a \<open><\<close> and the next \<open>>\<close>; that outside
  tags decodes the eight recognised entities, and any other text starting with \<open>&#\<close>
  when a semicolon occurs among its first eight characters and \<open>sscanf\<close>'s \<open>%d\<close> reads
  from the text after \<open>&#\<close> a number strictly between 0 and 256 (white space and a sign
  before the digits and any characters between the digits and the semicolon are
  accepted), resuming after that semicolon; and that copies every other character outside
  tags unchanged, an ampersand that decodes to nothing included, resuming at the character
  after it.
\<close>

theorem scan_output:
  "0 <s maxLength \<Longrightarrow>
   output_text (dectalk_extract_text_from_ssml (Some t) (Some mem) maxLength) = extracted maxLength t
   \<and> snd (dectalk_extract_text_from_ssml (Some t) (Some mem) maxLength)
       = Some (store_chars mem 0 (extracted maxLength t @ [CHR 0x00]))"
proof -
  assume m: "0 <s maxLength"
  note r = extract_refines [OF m, of t mem]
  have "output_text (dectalk_extract_text_from_ssml (Some t) (Some mem) maxLength)
          = map (store_chars mem 0 (extracted maxLength t @ [CHR 0x00]))
              [0..<length (extracted maxLength t)]"
    by (simp add: output_text_def r)
  then show ?thesis
    using r(2) by (simp add: map_store_chars)
qed

theorem scan_output_witness:
  "0 <s (16::int32_t)
   \<and> output_text (dectalk_extract_text_from_ssml
        (Some ''<speak>Hello &amp; welcome</speak>'') (Some blank) 16) = ''Hello & welcome''
   \<and> extracted 16 ''A&#91;B&#93;C'' = ''A[B]C''
   \<and> extracted 16 ''X&#999;Y'' = ''X&#999;Y''"
proof -
  have h: "0 <s (16::int32_t)" by (simp add: word_sless_alt)
  have e: "extracted 16 ''<speak>Hello &amp; welcome</speak>'' = ''Hello & welcome''"
    by code_simp
  have e2: "extracted 16 ''A&#91;B&#93;C'' = ''A[B]C''" by code_simp
  have e3: "extracted 16 ''X&#999;Y'' = ''X&#999;Y''" by code_simp
  from scan_output [OF h, of "''<speak>Hello &amp; welcome</speak>''" blank] h e e2 e3
  show ?thesis by simp
qed

section \<open>Properties of the session\<close>

lemma live_session: "g_initialized live \<and> g_ttsHandle live = Some 1"
  by (simp add: live_def dectalk_init_def fresh_def initial_bridge_def quiet_env_def Let_def engine_def)

lemma fresh_session: "\<not> g_initialized fresh" "g_currentVoice fresh = 0"
  by (simp_all add: fresh_def initial_bridge_def DECtalkVoicePaul_def)

text \<open>
  C4. For a voice id outside \<open>[0, DECtalkVoiceCount)\<close>, \<open>dectalk_set_voice\<close> returns
  \<open>DECtalkErrorInvalidVoice\<close> and \<open>dectalk_get_voice\<close> afterwards returns what it returned
  before; for an id inside, it returns \<open>DECtalkErrorNone\<close> and \<open>dectalk_get_voice\<close>
  afterwards returns the id. Both hold in every state, a session being live or not.
\<close>

theorem voice_selection:
  "(voice < 0 \<or> DECtalkVoiceCount \<le> voice \<longrightarrow>
      fst (dectalk_set_voice voice s) = DECtalkErrorInvalidVoice
      \<and> dectalk_get_voice (snd (dectalk_set_voice voice s)) = dectalk_get_voice s)
   \<and> (0 \<le> voice \<and> voice < DECtalkVoiceCount \<longrightarrow>
      fst (dectalk_set_voice voice s) = DECtalkErrorNone
      \<and> dectalk_get_voice (snd (dectalk_set_voice voice s)) = voice)"
  by (simp add: dectalk_set_voice_def dectalk_get_voice_def engine_def Let_def)

theorem voice_selection_witness:
  "((9::int) < 0 \<or> DECtalkVoiceCount \<le> 9)
   \<and> fst (dectalk_set_voice 9 live) = DECtalkErrorInvalidVoice
   \<and> dectalk_get_voice (snd (dectalk_set_voice 9 live)) = dectalk_get_voice live
   \<and> ((0::int) \<le> 3 \<and> 3 < DECtalkVoiceCount)
   \<and> fst (dectalk_set_voice 3 fresh) = DECtalkErrorNone
   \<and> dectalk_get_voice (snd (dectalk_set_voice 3 fresh)) = 3
   \<and> fst (dectalk_set_voice 3 live) = DECtalkErrorNone
   \<and> dectalk_get_voice (snd (dectalk_set_voice 3 live)) = 3"
  using voice_selection [of 9 live] voice_selection [of 3 fresh] voice_selection [of 3 live]
  by (simp add: DECtalkVoiceCount_def)

text \<open>
  C5. \<open>dectalk_init\<close> on an initialized session returns success and leaves the state as
  it is. \<open>dectalk_shutdown\<close> without a live session changes nothing, and a second
  \<open>dectalk_shutdown\<close> changes nothing after the first: of a live session the handle is
  released once by the first call and not again by the second.
\<close>

theorem lifecycle_idempotent:
  "(g_initialized s \<longrightarrow> dectalk_init env s = (DECtalkErrorNone, s))
   \<and> (\<not> (g_initialized s \<and> g_ttsHandle s \<noteq> None) \<longrightarrow> dectalk_shutdown s = s)
   \<and> dectalk_shutdown (dectalk_shutdown s) = dectalk_shutdown s
   \<and> (g_initialized s \<and> g_ttsHandle s \<noteq> None \<longrightarrow>
        releases (dectalk_shutdown s) = releases s + 1
        \<and> releases (dectalk_shutdown (dectalk_shutdown s)) = releases s + 1)"
proof -
  have 1: "dectalk_shutdown (dectalk_shutdown s) = dectalk_shutdown s"
  proof (cases "g_initialized s \<and> g_ttsHandle s \<noteq> None")
    case True
    then have "\<not> g_initialized (dectalk_shutdown s)"
      by (simp add: dectalk_shutdown_def Let_def engine_def)
    then show ?thesis by (subst dectalk_shutdown_def) simp
  next
    case False
    then have "dectalk_shutdown s = s" by (auto simp: dectalk_shutdown_def)
    then show ?thesis by simp
  qed
  have 2: "releases (dectalk_shutdown s) = releases s + 1"
    if "g_initialized s \<and> g_ttsHandle s \<noteq> None"
    using that by (simp add: dectalk_shutdown_def Let_def releases_def engine_def)
  have 3: "dectalk_shutdown s = s" if "\<not> (g_initialized s \<and> g_ttsHandle s \<noteq> None)"
    using that by (auto simp: dectalk_shutdown_def)
  have 4: "dectalk_init env s = (DECtalkErrorNone, s)" if "g_initialized s"
    using that by (simp add: dectalk_init_def)
  from 1 2 3 4 show ?thesis by simp
qed

theorem lifecycle_idempotent_witness:
  "g_initialized live
   \<and> dectalk_init quiet_env live = (DECtalkErrorNone, live)
   \<and> \<not> (g_initialized fresh \<and> g_ttsHandle fresh \<noteq> None)
   \<and> dectalk_shutdown fresh = fresh
   \<and> (g_initialized live \<and> g_ttsHandle live \<noteq> None)
   \<and> releases (dectalk_shutdown live) = releases live + 1
   \<and> releases (dectalk_shutdown (dectalk_shutdown live)) = releases live + 1"
  using lifecycle_idempotent [of live quiet_env] lifecycle_idempotent [of fresh quiet_env]
    live_session fresh_session
  by simp

lemma sint_rate_clamp:
  "sint (if 600 <s (if wpm <s 75 then 75 else wpm) then 600
         else (if wpm <s 75 then 75 else wpm :: int32_t))
     = clamp (sint wpm) 75 600"
  by (simp add: clamp_def word_sless_alt)

text \<open>
  C6, as stated, fails on the code: before any session exists \<open>dectalk_set_rate(100)\<close>
  sends nothing, and \<open>dectalk_get_rate\<close> right after it returns the default 180, not
  \<open>clamp(100, 75, 600) = 100\<close>.
\<close>

theorem rate_counterexample:
  "fst (dectalk_get_rate MMSYSERR_NOERROR (snd (dectalk_set_rate MMSYSERR_NOERROR 100 fresh))) = 180
   \<and> clamp (sint (100::int32_t)) 75 600 = 100"
  by (simp add: dectalk_get_rate_def dectalk_set_rate_def fresh_session clamp_def)

text \<open>
  C6, amended. While a session is live, \<open>dectalk_set_rate(wpm)\<close> sends the engine
  \<open>clamp(wpm, 75, 600)\<close>, whatever the engine answers; when the engine accepts it and
  then answers \<open>dectalk_get_rate\<close>'s query, \<open>dectalk_get_rate\<close> returns
  \<open>clamp(wpm, 75, 600)\<close>. While no session is live, \<open>dectalk_set_rate\<close> returns -1 and
  sends nothing, and \<open>dectalk_get_rate\<close> returns the default 180.
\<close>

theorem rate_round_trip:
  "(g_initialized s \<and> g_ttsHandle s \<noteq> None \<longrightarrow>
      (\<exists>rate. engine_log (snd (dectalk_set_rate status wpm s))
                 = engine_log s @ [TextToSpeechSetRate (g_ttsHandle s) rate]
             \<and> sint rate = clamp (sint wpm) 75 600)
      \<and> sint (fst (dectalk_get_rate MMSYSERR_NOERROR
                      (snd (dectalk_set_rate MMSYSERR_NOERROR wpm s))))
          = clamp (sint wpm) 75 600)
   \<and> (\<not> (g_initialized s \<and> g_ttsHandle s \<noteq> None) \<longrightarrow>
      dectalk_set_rate status wpm s = (- 1, s) \<and> dectalk_get_rate status' s = (180, s))"
  using sint_rate_clamp [of wpm]
  by (auto simp: dectalk_set_rate_def dectalk_get_rate_def engine_set_rate_def engine_def Let_def)

theorem rate_round_trip_witness:
  "(g_initialized live \<and> g_ttsHandle live \<noteq> None)
   \<and> sint (fst (dectalk_get_rate MMSYSERR_NOERROR
                   (snd (dectalk_set_rate MMSYSERR_NOERROR 1000 live)))) = 600
   \<and> \<not> (g_initialized fresh \<and> g_ttsHandle fresh \<noteq> None)
   \<and> dectalk_set_rate MMSYSERR_NOERROR 1000 fresh = (- 1, fresh)
   \<and> dectalk_get_rate MMSYSERR_NOERROR fresh = (180, fresh)"
  using rate_round_trip [of live MMSYSERR_NOERROR 1000 MMSYSERR_NOERROR]
    rate_round_trip [of fresh MMSYSERR_NOERROR 1000 MMSYSERR_NOERROR]
    live_session fresh_session
  by (simp add: clamp_def)

section \<open>Properties of the capture protocol\<close>

subsection \<open>Frames\<close>

lemma sink_of_engine [simp]: "sink_of (engine c s) = sink_of s"
  by (simp add: sink_of_def engine_def)

lemma sink_of_engine_fill [simp]: "sink_of (engine_fill f s) = sink_of s"
  by (simp add: sink_of_def engine_fill_def)

lemma sink_of_copy_samples [simp]: "sink_of (copy_samples b s) = sink_of s"
  by (simp add: sink_of_def copy_samples_def Let_def)

lemma sink_of_buffers [simp]: "sink_of (s\<lparr>g_ttsBuffers := x\<rparr>) = sink_of s"
  by (simp add: sink_of_def)

lemma sink_of_open [simp]: "sink_of (s\<lparr>g_inMemoryOpen := x\<rparr>) = sink_of s"
  by (simp add: sink_of_def)

lemma sink_of_install [simp]: "sink_of (install_sink buffer bufferSize s) = (buffer, bufferSize)"
  by (simp add: sink_of_def install_sink_def)

lemma sink_of_ttsCallback [simp]: "sink_of (ttsCallback m p s) = sink_of s"
  by (cases p) (simp_all add: ttsCallback_def Let_def)

lemma sink_of_notify [simp]: "sink_of (notify n s) = sink_of s"
  by (cases "(n, s)" rule: notify.cases) simp_all

lemma sink_of_deliver [simp]: "sink_of (deliver ns s) = sink_of s"
  unfolding deliver_def by (induction ns arbitrary: s) simp_all

lemma sink_of_drain_step [simp]: "sink_of (drain_step f s) = sink_of s"
  by (simp add: drain_step_def Let_def)

lemma sink_of_drain [simp]: "sink_of (drain fs s) = sink_of s"
  by (induction fs arbitrary: s) simp_all

lemma sink_of_queue_buffer [simp]: "sink_of (queue_buffer i s) = sink_of s"
  by (simp add: queue_buffer_def)

lemma sink_of_queue_all [simp]: "sink_of (fold queue_buffer xs s) = sink_of s"
  by (induction xs arbitrary: s) simp_all

lemma sink_of_capture [simp]: "sink_of (capture st s) = sink_of s"
  by (cases st) simp_all

lemma sink_of_capture_run [simp]: "sink_of (capture_run steps s) = sink_of s"
  unfolding capture_run_def by (induction steps arbitrary: s) simp_all

subsection \<open>The count stays within the capacity\<close>

lemma sink_ok_engine [simp]: "sink_ok (engine c s) = sink_ok s"
  by (simp add: sink_ok_def engine_def)

lemma sink_ok_engine_fill [simp]: "sink_ok (engine_fill f s) = sink_ok s"
  by (simp add: sink_ok_def engine_fill_def)

lemma sink_ok_buffers [simp]: "sink_ok (s\<lparr>g_ttsBuffers := x\<rparr>) = sink_ok s"
  by (simp add: sink_ok_def)

lemma sink_ok_open [simp]: "sink_ok (s\<lparr>g_inMemoryOpen := x\<rparr>) = sink_ok s"
  by (simp add: sink_ok_def)

lemma sink_ok_install: "0 <=s bufferSize \<Longrightarrow> sink_ok (install_sink buffer bufferSize s)"
  by (simp add: sink_ok_def install_sink_def word_sle_eq)

lemma sink_ok_queue_buffer [simp]: "sink_ok (queue_buffer i s) = sink_ok s"
  by (simp add: queue_buffer_def)

lemma sink_ok_queue_all [simp]: "sink_ok (fold queue_buffer xs s) = sink_ok s"
  by (induction xs arbitrary: s) simp_all

lemma memcpy_nothing [simp]: "memcpy h d x 0 = h"
  by (rule ext) (auto simp: memcpy_def)

lemma copy_samples_effect:
  assumes "sink_ok s"
  shows "copy_samples b s =
           s\<lparr>heap := memcpy (heap s) (g_outputBuffer s + 2 * sint (g_outputSamplesWritten s))
                        (lpData_bytes s b) (2 * copied b s),
             g_outputSamplesWritten := g_outputSamplesWritten s + word_of_int (copied b s)\<rparr>"
    and "sint (g_outputSamplesWritten s + word_of_int (copied b s))
           = sint (g_outputSamplesWritten s) + copied b s"
    and "0 \<le> copied b s"
proof -
  let ?W = "g_outputSamplesWritten s" and ?S = "g_outputBufferSize s"
  let ?L = "dwBufferLength b div 2"
  from assms have ok: "0 \<le> sint ?W" "sint ?W \<le> sint ?S" by (simp_all add: sink_ok_def)
  have L: "sint ?L = uint (dwBufferLength b) div 2" by (rule sint32_half)
  then have L0: "0 \<le> sint ?L" by simp
  have R: "sint (?S - ?W) = sint ?S - sint ?W"
    using ok sint32_range [of ?S] sint32_range [of ?W] by (intro sint32_diff) simp_all
  define n where "n = (if ?S - ?W <s ?L then ?S - ?W else ?L)"
  have n: "sint n = copied b s"
    by (simp add: n_def copied_def word_sless_alt R L min_def)
  have wn: "word_of_int (copied b s) = n" unfolding n [symmetric] by simp
  show c0: "0 \<le> copied b s" using ok L0 by (simp add: copied_def L)
  have cR: "copied b s \<le> sint ?S - sint ?W" by (simp add: copied_def)
  show "sint (?W + word_of_int (copied b s)) = sint ?W + copied b s"
    unfolding wn using n c0 cR ok sint32_range [of ?S] sint32_range [of ?W]
    by (subst sint32_add) simp_all
  show "copy_samples b s =
           s\<lparr>heap := memcpy (heap s) (g_outputBuffer s + 2 * sint ?W)
                        (lpData_bytes s b) (2 * copied b s),
             g_outputSamplesWritten := ?W + word_of_int (copied b s)\<rparr>"
  proof (cases "0 <s n")
    case True
    then show ?thesis
      unfolding copy_samples_def Let_def wn n [symmetric] n_def by simp
  next
    case False
    then have "sint n \<le> 0" by (simp add: word_sless_alt)
    with c0 n have z: "copied b s = 0" by simp
    then have "n = 0" using wn by simp
    with False show ?thesis
      unfolding copy_samples_def Let_def z by (simp add: n_def)
  qed
qed

lemma sink_ok_copy_samples: "sink_ok s \<Longrightarrow> sink_ok (copy_samples b s)"
proof -
  assume ok: "sink_ok s"
  have "copied b s \<le> sint (g_outputBufferSize s) - sint (g_outputSamplesWritten s)"
    by (simp add: copied_def)
  with ok copy_samples_effect(2,3) [OF ok, of b] show ?thesis
    unfolding copy_samples_effect(1) [OF ok] by (simp add: sink_ok_def)
qed

lemma sink_ok_ttsCallback: "sink_ok s \<Longrightarrow> sink_ok (ttsCallback m p s)"
  by (cases p) (simp_all add: ttsCallback_def Let_def sink_ok_copy_samples)

lemma sink_ok_notify: "sink_ok s \<Longrightarrow> sink_ok (notify n s)"
  by (cases "(n, s)" rule: notify.cases) (simp_all add: sink_ok_ttsCallback)

lemma sink_ok_deliver: "sink_ok s \<Longrightarrow> sink_ok (deliver ns s)"
  unfolding deliver_def by (induction ns arbitrary: s) (simp_all add: sink_ok_notify)

lemma sink_ok_drain_step: "sink_ok s \<Longrightarrow> sink_ok (drain_step f s)"
  by (simp add: drain_step_def Let_def sink_ok_copy_samples)

lemma sink_ok_drain: "sink_ok s \<Longrightarrow> sink_ok (drain fs s)"
  by (induction fs arbitrary: s) (simp_all add: sink_ok_drain_step)

lemma sink_ok_capture: "sink_ok s \<Longrightarrow> sink_ok (capture st s)"
  by (cases st) (simp_all add: sink_ok_ttsCallback sink_ok_drain_step)

lemma sink_ok_capture_run: "sink_ok s \<Longrightarrow> sink_ok (capture_run steps s)"
  unfolding capture_run_def by (induction steps arbitrary: s) (simp_all add: sink_ok_capture)


subsection \<open>One copy step\<close>

lemma engine_fill_engine: "engine_fill f (engine c s) = engine c (engine_fill f s)"
  by (simp add: engine_fill_def engine_def split: option.split)

lemma lpData_bytes_engine [simp]: "lpData_bytes (engine c s) b = lpData_bytes s b"
  by (simp add: lpData_bytes_def engine_def split: option.split)

lemma filled_length [simp]: "dwBufferLength (g_ttsBuffers (engine_fill f s) (chunk f)) = filled f"
  by (simp add: engine_fill_def)

lemma copied_fill:
  "copied (g_ttsBuffers (engine_fill f s) (chunk f)) (engine_fill f s)
     = min (uint (filled f) div 2) (sint (g_outputBufferSize s) - sint (g_outputSamplesWritten s))"
  by (simp add: copied_def) (simp add: engine_fill_def)

lemma engine_fill_fields [simp]:
  "heap (engine_fill f s) = heap s" "g_outputBuffer (engine_fill f s) = g_outputBuffer s"
  "g_outputSamplesWritten (engine_fill f s) = g_outputSamplesWritten s"
  "g_outputBufferSize (engine_fill f s) = g_outputBufferSize s"
  "engine_log (engine_fill f s) = engine_log s" "g_ttsHandle (engine_fill f s) = g_ttsHandle s"
  by (simp_all add: engine_fill_def)

lemma engine_fields [simp]:
  "heap (engine c s) = heap s" "g_outputBuffer (engine c s) = g_outputBuffer s"
  "g_outputSamplesWritten (engine c s) = g_outputSamplesWritten s"
  "g_outputBufferSize (engine c s) = g_outputBufferSize s"
  "engine_log (engine c s) = engine_log s @ [c]" "g_ttsHandle (engine c s) = g_ttsHandle s"
  "g_ttsBuffers (engine c s) = g_ttsBuffers s"
  by (simp_all add: engine_def)

lemma copy_samples_fields [simp]:
  "g_ttsBuffers (copy_samples b s) = g_ttsBuffers s" "g_ttsHandle (copy_samples b s) = g_ttsHandle s"
  "engine_log (copy_samples b s) = engine_log s"
  by (simp_all add: copy_samples_def Let_def)

text \<open>What a copy step does to a sink whose count is within its capacity.\<close>

lemma capture_effect:
  assumes ok: "sink_ok s" and act: "g_outputBuffer s \<noteq> 0"
  shows "sint (g_outputSamplesWritten (capture st s))
           = sint (g_outputSamplesWritten s)
             + min (uint (filled (step_fill st)) div 2)
                   (sint (g_outputBufferSize s) - sint (g_outputSamplesWritten s))"
    and "heap (capture st s)
           = memcpy (heap s) (g_outputBuffer s + 2 * sint (g_outputSamplesWritten s))
               (chunk_bytes (step_fill st) s)
               (2 * min (uint (filled (step_fill st)) div 2)
                        (sint (g_outputBufferSize s) - sint (g_outputSamplesWritten s)))"
proof -
  obtain f where f: "step_fill st = f" by simp
  let ?n = "min (uint (filled f) div 2) (sint (g_outputBufferSize s) - sint (g_outputSamplesWritten s))"
  have room: "0 \<le> sint (g_outputBufferSize s) - sint (g_outputSamplesWritten s)"
    using ok by (simp add: sink_ok_def)
  have both: "sint (g_outputSamplesWritten (capture st s)) = sint (g_outputSamplesWritten s) + ?n
            \<and> heap (capture st s)
                = memcpy (heap s) (g_outputBuffer s + 2 * sint (g_outputSamplesWritten s))
                    (chunk_bytes f s) (2 * ?n)"
  proof (cases "0 < filled f")
    case False
    then have z: "filled f = 0" by (simp add: word_gt_0)
    then have n0: "?n = 0" using room by simp
    have "capture st s = engine_fill f s \<or> capture st s = engine_fill f (engine (TextToSpeechReturnBuffer (g_ttsHandle s)) s)"
      using f z by (cases st) (simp_all add: ttsCallback_def drain_step_def Let_def)
    then show ?thesis unfolding n0 by auto
  next
    case True
    let ?s1 = "engine_fill f s"
    let ?b = "g_ttsBuffers ?s1 (chunk f)"
    have ok1: "sink_ok ?s1" using ok by simp
    note e = copy_samples_effect [OF ok1, of ?b]
    have c: "copied ?b ?s1 = ?n" by (rule copied_fill)
    have w: "sint (g_outputSamplesWritten (copy_samples ?b ?s1)) = sint (g_outputSamplesWritten s) + ?n"
      unfolding e(1) using e(2) c by simp
    have h: "heap (copy_samples ?b ?s1)
               = memcpy (heap s) (g_outputBuffer s + 2 * sint (g_outputSamplesWritten s))
                   (chunk_bytes f s) (2 * ?n)"
      unfolding e(1) c by (simp add: chunk_bytes_def)
    show ?thesis
    proof (cases st)
      case (Fill_notification g)
      with f have g: "g = f" by simp
      have "capture st s = engine (TextToSpeechAddBuffer (g_ttsHandle s) (chunk f))
              ((copy_samples ?b ?s1)\<lparr>g_ttsBuffers :=
                 (g_ttsBuffers ?s1)(chunk f := ?b\<lparr>dwBufferLength := 0\<rparr>)\<rparr>)"
        using True act by (simp add: Fill_notification g ttsCallback_def Let_def)
      then show ?thesis using w h by simp
    next
      case (Drain_iteration g)
      with f have g: "g = f" by simp
      let ?s0 = "engine (TextToSpeechReturnBuffer (g_ttsHandle s)) s"
      have sw: "engine_fill f ?s0 = engine (TextToSpeechReturnBuffer (g_ttsHandle s)) ?s1"
        by (rule engine_fill_engine)
      have ok0: "sink_ok ?s0" using ok by simp
      have ok2: "sink_ok (engine_fill f ?s0)" using ok0 by simp
      let ?b0 = "g_ttsBuffers (engine_fill f ?s0) (chunk f)"
      note e0 = copy_samples_effect [OF ok2, of ?b0]
      have c0: "copied ?b0 (engine_fill f ?s0) = ?n"
        using copied_fill [of f ?s0] by simp
      have cb: "lpData_bytes (engine_fill f ?s0) ?b0 = chunk_bytes f s"
        unfolding chunk_bytes_def sw by simp
      have "capture st s = copy_samples ?b0 (engine_fill f ?s0)"
        using True by (simp add: Drain_iteration g drain_step_def Let_def)
      then show ?thesis
        unfolding e0(1) c0 cb using e0(2) c0 by simp
    qed
  qed
  from both show "sint (g_outputSamplesWritten (capture st s))
           = sint (g_outputSamplesWritten s)
             + min (uint (filled (step_fill st)) div 2)
                   (sint (g_outputBufferSize s) - sint (g_outputSamplesWritten s))"
    unfolding f by simp
  from both show "heap (capture st s)
           = memcpy (heap s) (g_outputBuffer s + 2 * sint (g_outputSamplesWritten s))
               (chunk_bytes (step_fill st) s)
               (2 * min (uint (filled (step_fill st)) div 2)
                        (sint (g_outputBufferSize s) - sint (g_outputSamplesWritten s)))"
    unfolding f by simp
qed

lemma fill_requeues:
  assumes "0 < filled f" and "g_outputBuffer s \<noteq> 0"
  shows "dwBufferLength (g_ttsBuffers (capture (Fill_notification f) s) (chunk f)) = 0"
    and "engine_log (capture (Fill_notification f) s)
           = engine_log s @ [TextToSpeechAddBuffer (g_ttsHandle s) (chunk f)]"
  using assms by (simp_all add: ttsCallback_def Let_def)


subsection \<open>Claims about the capture protocol\<close>

lemma capture_run_snoc: "capture_run (steps @ [st]) s = capture st (capture_run steps s)"
  by (simp add: capture_run_def)

text \<open>
  C2, as stated, fails on the code when the chunk's filled length is taken as the code
  and the data model have it, a count of bytes: a chunk filled with 4 bytes, notified to
  a fresh sink of capacity 3, advances the written count by 2 samples, not by
  \<open>min (4, 3 - 0) = 3\<close>.
\<close>

theorem capture_counts_samples:
  "filled two_samples = 4
   \<and> sint (g_outputSamplesWritten (install_sink 1000 3 live)) = 0
   \<and> sint (g_outputSamplesWritten
        (capture (Fill_notification two_samples) (install_sink 1000 3 live))) = 2
   \<and> min (uint (filled two_samples))
          (sint (3::int32_t) - sint (g_outputSamplesWritten (install_sink 1000 3 live))) = 3"
proof -
  let ?s = "install_sink 1000 3 live"
  have ok: "sink_ok ?s" by (simp add: sink_ok_install word_sle_eq)
  have act: "g_outputBuffer ?s \<noteq> 0" by (simp add: install_sink_def)
  have z: "sint (g_outputSamplesWritten ?s) = 0" "sint (g_outputBufferSize ?s) = 3"
    by (simp_all add: install_sink_def)
  have f: "filled two_samples = 4" "step_fill (Fill_notification two_samples) = two_samples"
    by (simp_all add: two_samples_def)
  from capture_effect(1) [OF ok act, of "Fill_notification two_samples"] z f
  show ?thesis by simp
qed

text \<open>
  C2, amended. Let a sink of capacity \<open>bufferSize \<ge> 0\<close> be installed over a non-null
  buffer, its written count 0, and let any sequence \<open>pre\<close> of copy steps run, followed by
  one more step \<open>st\<close> on a chunk filled with \<open>filled f\<close> bytes. That step moves exactly
  \<open>n = min (filled f div 2, capacity - written)\<close> samples, the chunk's bytes being counted
  in whole 16-bit samples: the count advances by \<open>n\<close> and the caller's memory changes by
  a \<open>memcpy\<close> of \<open>n\<close> samples from the chunk to the first free place of the buffer
  (nothing when \<open>n = 0\<close>). A fill notification for a non-empty chunk resets the chunk's
  length and queues it again, also when \<open>n = 0\<close>. Before and after the step the count
  does not exceed the capacity.
\<close>

theorem capture_protocol:
  assumes "0 <=s bufferSize" and "buffer \<noteq> 0"
  shows "let s1 = capture_run pre (install_sink buffer bufferSize s);
             s2 = capture st s1;
             f = step_fill st;
             n = min (uint (filled f) div 2) (sint bufferSize - sint (g_outputSamplesWritten s1))
         in 0 \<le> n
          \<and> sint (g_outputSamplesWritten s2) = sint (g_outputSamplesWritten s1) + n
          \<and> heap s2 = memcpy (heap s1) (buffer + 2 * sint (g_outputSamplesWritten s1))
                         (chunk_bytes f s1) (2 * n)
          \<and> (st = Fill_notification f \<and> 0 < filled f \<longrightarrow>
               dwBufferLength (g_ttsBuffers s2 (chunk f)) = 0
               \<and> engine_log s2 = engine_log s1 @ [TextToSpeechAddBuffer (g_ttsHandle s1) (chunk f)])
          \<and> sint (g_outputSamplesWritten s1) \<le> sint (g_outputBufferSize s1)
          \<and> sint (g_outputSamplesWritten s2) \<le> sint (g_outputBufferSize s2)
          \<and> g_outputBufferSize s2 = bufferSize"
proof -
  let ?s1 = "capture_run pre (install_sink buffer bufferSize s)"
  have ok1: "sink_ok ?s1"
    using assms(1) by (simp add: sink_ok_capture_run sink_ok_install)
  have so: "sink_of ?s1 = (buffer, bufferSize)" by simp
  then have b1: "g_outputBuffer ?s1 = buffer" and z1: "g_outputBufferSize ?s1 = bufferSize"
    by (simp_all add: sink_of_def)
  have act: "g_outputBuffer ?s1 \<noteq> 0" using assms(2) b1 by simp
  have ok2: "sink_ok (capture st ?s1)" using ok1 by (rule sink_ok_capture)
  have "sink_of (capture st ?s1) = (buffer, bufferSize)" by simp
  then have z2: "g_outputBufferSize (capture st ?s1) = bufferSize" by (simp add: sink_of_def)
  note e = capture_effect [OF ok1 act, of st, unfolded b1 z1]
  have n0: "0 \<le> min (uint (filled (step_fill st)) div 2)
                    (sint bufferSize - sint (g_outputSamplesWritten ?s1))"
    using ok1 z1 by (simp add: sink_ok_def)
  have rq: "dwBufferLength (g_ttsBuffers (capture st ?s1) (chunk (step_fill st))) = 0
            \<and> engine_log (capture st ?s1)
                = engine_log ?s1 @ [TextToSpeechAddBuffer (g_ttsHandle ?s1) (chunk (step_fill st))]"
    if "st = Fill_notification (step_fill st)" "0 < filled (step_fill st)"
    using fill_requeues [OF that(2) act] that(1) by metis
  show ?thesis
    unfolding Let_def
    using n0 e rq ok1 ok2 z2 by (simp add: sink_ok_def)
qed



theorem capture_protocol_witness:
  "0 <=s (3::int32_t) \<and> (1000::int) \<noteq> 0
   \<and> sint (g_outputSamplesWritten
        (capture_run [Fill_notification two_samples] (install_sink 1000 3 live))) = 2
   \<and> sint (g_outputSamplesWritten
        (capture_run [Fill_notification two_samples, Drain_iteration four_samples]
           (install_sink 1000 3 live))) = 3
   \<and> sint (g_outputSamplesWritten
        (capture_run [Fill_notification two_samples, Drain_iteration four_samples,
                      Fill_notification four_samples]
           (install_sink 1000 3 live))) = 3
   \<and> 0 < filled four_samples
   \<and> dwBufferLength (g_ttsBuffers
        (capture_run [Fill_notification two_samples, Drain_iteration four_samples,
                      Fill_notification four_samples]
           (install_sink 1000 3 live)) (chunk four_samples)) = 0"
proof -
  have h: "0 <=s (3::int32_t)" "(1000::int) \<noteq> 0" by (simp_all add: word_sle_eq)
  let ?s = "install_sink 1000 3 live"
  have w0: "sint (g_outputSamplesWritten (capture_run [] ?s)) = 0"
    by (simp add: capture_run_def install_sink_def)
  have f: "uint (filled two_samples) div 2 = 2" "uint (filled four_samples) div 2 = 4"
    "step_fill (Fill_notification two_samples) = two_samples"
    "step_fill (Drain_iteration four_samples) = four_samples"
    "step_fill (Fill_notification four_samples) = four_samples"
    by (simp_all add: two_samples_def four_samples_def)
  note p = capture_protocol [OF h, unfolded Let_def]
  have w1: "sint (g_outputSamplesWritten (capture_run [Fill_notification two_samples] ?s)) = 2"
    using p [where pre = "[]" and s = live and st = "Fill_notification two_samples"] w0
      capture_run_snoc [of "[]" "Fill_notification two_samples" ?s]
    by (simp add: f)
  have w2: "sint (g_outputSamplesWritten
              (capture_run [Fill_notification two_samples, Drain_iteration four_samples] ?s)) = 3"
    using p [where pre = "[Fill_notification two_samples]" and s = live
               and st = "Drain_iteration four_samples"] w1
      capture_run_snoc [of "[Fill_notification two_samples]" "Drain_iteration four_samples" ?s]
    by (simp add: f)
  have w3: "sint (g_outputSamplesWritten
              (capture_run [Fill_notification two_samples, Drain_iteration four_samples,
                            Fill_notification four_samples] ?s)) = 3"
    using p [where pre = "[Fill_notification two_samples, Drain_iteration four_samples]"
               and s = live and st = "Fill_notification four_samples"] w2
      capture_run_snoc [of "[Fill_notification two_samples, Drain_iteration four_samples]"
                          "Fill_notification four_samples" ?s]
    by (simp add: f)
  have g: "0 < filled four_samples" by (simp add: four_samples_def)
  have q: "dwBufferLength (g_ttsBuffers
             (capture_run [Fill_notification two_samples, Drain_iteration four_samples,
                           Fill_notification four_samples] ?s) (chunk four_samples)) = 0"
    using p [where pre = "[Fill_notification two_samples, Drain_iteration four_samples]"
               and s = live and st = "Fill_notification four_samples"] g
      capture_run_snoc [of "[Fill_notification two_samples, Drain_iteration four_samples]"
                          "Fill_notification four_samples" ?s]
    by (simp add: f)
  from h w1 w2 w3 g q show ?thesis by simp
qed

subsection \<open>Synthesis\<close>

lemma written_queue_all [simp]:
  "g_outputSamplesWritten (fold queue_buffer xs s) = g_outputSamplesWritten s"
  by (induction xs arbitrary: s) (simp_all add: queue_buffer_def)

lemma prepare_sink:
  "sink_of (snd (synthesize_prepare env buffer bufferSize s)) = (buffer, bufferSize)"
  "g_outputSamplesWritten (snd (synthesize_prepare env buffer bufferSize s)) = 0"
  by (simp_all add: synthesize_prepare_def Let_def install_sink_def sink_of_def [of "_\<lparr>g_outputSamplesWritten := _\<rparr>"])

lemma prepare_ok:
  "0 <=s bufferSize \<Longrightarrow> sink_ok (snd (synthesize_prepare env buffer bufferSize s))"
  by (simp add: synthesize_prepare_def Let_def sink_ok_install)

lemma body_sink:
  "sink_of (snd (synthesize_body env t buffer bufferSize cell s)) = (buffer, bufferSize)"
proof -
  obtain ok p where p: "synthesize_prepare env buffer bufferSize s = (ok, p)"
    by (cases "synthesize_prepare env buffer bufferSize s")
  with prepare_sink(1) [of env buffer bufferSize s] have "sink_of p = (buffer, bufferSize)"
    by simp
  then show ?thesis
    by (cases ok) (simp_all add: synthesize_body_def p Let_def)
qed

lemma body_result:
  assumes "0 <=s bufferSize"
  shows "fst (synthesize_body env t buffer bufferSize cell s) = (DECtalkErrorSynthFailed, cell)
       \<or> (fst (synthesize_body env t buffer bufferSize cell s)
            = (DECtalkErrorNone, g_outputSamplesWritten (snd (synthesize_body env t buffer bufferSize cell s)))
          \<and> sink_ok (snd (synthesize_body env t buffer bufferSize cell s)))"
proof -
  obtain ok p where p: "synthesize_prepare env buffer bufferSize s = (ok, p)"
    by (cases "synthesize_prepare env buffer bufferSize s")
  with prepare_ok [OF assms, of env buffer s] have "sink_ok p" by simp
  then show ?thesis
    by (cases ok) (simp_all add: synthesize_body_def p Let_def sink_ok_deliver sink_ok_drain)
qed

lemma written_init_buffers [simp]:
  "g_outputSamplesWritten (fold init_buffer xs s) = g_outputSamplesWritten s"
  by (induction xs arbitrary: s) (simp_all add: init_buffer_def)

lemma init_result:
  "fst (dectalk_init env s) = DECtalkErrorNone \<or> fst (dectalk_init env s) = DECtalkErrorInitFailed"
  by (simp add: dectalk_init_def Let_def)

lemma sink_of_init_buffers [simp]: "sink_of (fold init_buffer xs s) = sink_of s"
  by (induction xs arbitrary: s) (simp_all add: init_buffer_def)

lemma sink_of_init [simp]: "sink_of (snd (dectalk_init env s)) = sink_of s"
  by (simp add: dectalk_init_def Let_def sink_of_def [of "_\<lparr>g_ttsHandle := _\<rparr>"]
        sink_of_def [of "_\<lparr>g_initialized := _, g_currentVoice := _\<rparr>"])
     (simp add: sink_of_def [symmetric])


lemma init_fresh: "dectalk_init quiet_env fresh = (DECtalkErrorNone, live)"
  by (simp add: live_def dectalk_init_def fresh_session quiet_env_def Let_def)

lemma prepare_opens:
  "open_status env = MMSYSERR_NOERROR \<Longrightarrow> fst (synthesize_prepare env buffer bufferSize s)"
  by (simp add: synthesize_prepare_def Let_def)

lemma prepare_buffer:
  "g_outputBuffer (snd (synthesize_prepare env buffer bufferSize s)) = buffer"
  "g_outputBufferSize (snd (synthesize_prepare env buffer bufferSize s)) = bufferSize"
  using prepare_sink(1) [of env buffer bufferSize s] by (simp_all add: sink_of_def)

lemma drain_written [simp]:
  "g_outputSamplesWritten (drain [] s) = g_outputSamplesWritten s"
  by simp

text \<open>An engine that sends and returns nothing: the call succeeds with 0 samples.\<close>

lemma quiet_body:
  assumes "open_status env = MMSYSERR_NOERROR" "\<not> malloc_fails env"
    "speak_status env = MMSYSERR_NOERROR" "speak_events env = []" "sync_events env = []"
    "returned env = []"
  shows "fst (synthesize_body env t buffer bufferSize cell s) = (DECtalkErrorNone, 0)"
proof -
  obtain ok p where p: "synthesize_prepare env buffer bufferSize s = (ok, p)"
    by (cases "synthesize_prepare env buffer bufferSize s")
  with prepare_opens [OF assms(1), of buffer bufferSize s]
    prepare_sink(2) [of env buffer bufferSize s]
  have "ok" "g_outputSamplesWritten p = 0" by simp_all
  then show ?thesis
    using assms by (simp add: synthesize_body_def p Let_def deliver_def)
qed

lemma quiet_synthesize:
  assumes "buffer \<noteq> 0"
  shows "fst (dectalk_synthesize quiet_env (Some t) buffer bufferSize (Some cell) fresh)
           = (DECtalkErrorNone, Some 0)"
    and "sink_of (snd (dectalk_synthesize quiet_env (Some t) buffer bufferSize (Some cell) fresh))
           = (buffer, bufferSize)"
proof -
  have q: "fst (synthesize_body quiet_env t buffer bufferSize cell live) = (DECtalkErrorNone, 0)"
    by (rule quiet_body) (simp_all add: quiet_env_def)
  obtain r s' where b: "synthesize_body quiet_env t buffer bufferSize cell live = (r, s')"
    by (cases "synthesize_body quiet_env t buffer bufferSize cell live")
  with q have r: "r = (DECtalkErrorNone, 0)" by simp
  from b body_sink [of quiet_env t buffer bufferSize cell live]
  have s': "sink_of s' = (buffer, bufferSize)" by simp
  have d: "dectalk_synthesize quiet_env (Some t) buffer bufferSize (Some cell) fresh
             = ((DECtalkErrorNone, Some 0), s')"
    using assms by (simp add: dectalk_synthesize_def fresh_session init_fresh b r)
  show "fst (dectalk_synthesize quiet_env (Some t) buffer bufferSize (Some cell) fresh)
           = (DECtalkErrorNone, Some 0)"
    by (simp add: d)
  show "sink_of (snd (dectalk_synthesize quiet_env (Some t) buffer bufferSize (Some cell) fresh))
           = (buffer, bufferSize)"
    by (simp add: d s')
qed

subsection \<open>A call's capture against the capture steps alone\<close>

lemma same_capture_refl [simp]: "same_capture a a"
  by (simp add: same_capture_def)

lemma same_capture_engine [simp]: "same_capture (engine c a) b = same_capture a b"
  by (simp add: same_capture_def engine_def)

lemma same_capture_open [simp]: "same_capture (a\<lparr>g_inMemoryOpen := x\<rparr>) b = same_capture a b"
  by (simp add: same_capture_def)

lemma same_capture_engine2 [simp]: "same_capture a (engine c b) = same_capture a b"
  by (simp add: same_capture_def engine_def)

lemma same_capture_engine_fill [simp]: "same_capture (engine_fill f a) b = same_capture a b"
  by (auto simp: same_capture_def engine_fill_def)

lemma same_capture_engine_fill2 [simp]: "same_capture a (engine_fill f b) = same_capture a b"
  by (auto simp: same_capture_def engine_fill_def)

lemma same_capture_queue_buffer [simp]: "same_capture (queue_buffer i a) b = same_capture a b"
  by (auto simp: same_capture_def queue_buffer_def engine_def)

lemma same_capture_queue_all [simp]: "same_capture (fold queue_buffer xs a) b = same_capture a b"
  by (induction xs arbitrary: a) simp_all

lemma chunk_bytes_lpData:
  "chunk_bytes f s = (case lpData (g_ttsBuffers s (chunk f)) of None \<Rightarrow> (\<lambda>k. 0) | Some r \<Rightarrow> pcm f)"
  by (simp add: chunk_bytes_def lpData_bytes_def engine_fill_def split: option.split)

lemma chunk_bytes_same: "same_capture a b \<Longrightarrow> chunk_bytes f a = chunk_bytes f b"
  by (simp add: chunk_bytes_lpData same_capture_def)

lemma same_capture_copy:
  assumes "same_capture a b" and "dwBufferLength pa = dwBufferLength pb"
    and "lpData_bytes a pa = lpData_bytes b pb"
  shows "same_capture (copy_samples pa a) (copy_samples pb b)"
  using assms by (simp add: same_capture_def copy_samples_def Let_def)

lemma same_capture_filled_copy:
  assumes "same_capture a b"
  shows "same_capture (copy_samples (g_ttsBuffers (engine_fill f a) (chunk f)) (engine_fill f a))
                      (copy_samples (g_ttsBuffers (engine_fill f b) (chunk f)) (engine_fill f b))"
proof (rule same_capture_copy)
  show "same_capture (engine_fill f a) (engine_fill f b)"
    using assms by (simp add: same_capture_def engine_fill_def)
  show "dwBufferLength (g_ttsBuffers (engine_fill f a) (chunk f))
          = dwBufferLength (g_ttsBuffers (engine_fill f b) (chunk f))"
    by simp
  show "lpData_bytes (engine_fill f a) (g_ttsBuffers (engine_fill f a) (chunk f))
          = lpData_bytes (engine_fill f b) (g_ttsBuffers (engine_fill f b) (chunk f))"
    using chunk_bytes_same [OF assms, of f] by (simp add: chunk_bytes_def)
qed

lemma same_capture_buffers:
  "same_capture a b \<Longrightarrow>
   same_capture (a\<lparr>g_ttsBuffers := (g_ttsBuffers a)(i := (g_ttsBuffers a i)\<lparr>dwBufferLength := 0\<rparr>)\<rparr>)
                (b\<lparr>g_ttsBuffers := (g_ttsBuffers b)(j := (g_ttsBuffers b j)\<lparr>dwBufferLength := 0\<rparr>)\<rparr>)"
  by (simp add: same_capture_def)

lemma same_capture_capture:
  assumes "same_capture a b"
  shows "same_capture (capture st a) (capture st b)"
proof (cases st)
  case (Fill_notification f)
  have g: "g_outputBuffer (engine_fill f a) = g_outputBuffer (engine_fill f b)"
    using assms by (simp add: same_capture_def)
  show ?thesis
  proof (cases "0 < filled f \<and> g_outputBuffer (engine_fill f a) \<noteq> 0")
    case True
    with g same_capture_buffers [OF same_capture_filled_copy [OF assms, of f], of "chunk f" "chunk f"]
    show ?thesis
      by (simp add: Fill_notification ttsCallback_def Let_def)
  next
    case False
    with g assms show ?thesis
      by (auto simp: Fill_notification ttsCallback_def Let_def)
  qed
next
  case (Drain_iteration f)
  let ?a = "engine (TextToSpeechReturnBuffer (g_ttsHandle a)) a"
  let ?b = "engine (TextToSpeechReturnBuffer (g_ttsHandle b)) b"
  have ab: "same_capture ?a ?b" using assms by (simp add: same_capture_def engine_def)
  from same_capture_filled_copy [OF ab, of f] ab show ?thesis
    by (simp add: Drain_iteration drain_step_def Let_def same_capture_def)
qed

lemma capture_run_append: "capture_run (xs @ ys) s = capture_run ys (capture_run xs s)"
  by (simp add: capture_run_def)

lemma capture_run_Cons: "capture_run (st # ys) s = capture_run ys (capture st s)"
  by (simp add: capture_run_def)

lemma capture_run_Nil [simp]: "capture_run [] s = s"
  by (simp add: capture_run_def)

lemma same_capture_notify:
  assumes "same_capture a b"
  shows "same_capture (notify n a) (capture_run (as_step n) b)"
proof (cases "(n, a)" rule: notify.cases)
  case (1 uiMsg s)
  with assms show ?thesis
    by (cases uiMsg) (simp_all add: ttsCallback_def)
next
  case (2 uiMsg f s)
  show ?thesis
  proof (cases uiMsg)
    case TTS_MSG_BUFFER
    with 2 same_capture_capture [OF assms, of "Fill_notification f"] show ?thesis
      by (simp add: capture_run_Cons)
  next
    case (TTS_MSG_OTHER k)
    with 2 assms show ?thesis by (simp add: ttsCallback_def)
  qed
qed

lemma same_capture_deliver:
  "same_capture a b \<Longrightarrow> same_capture (deliver ns a) (capture_run (buffer_fills ns) b)"
proof (induction ns arbitrary: a b)
  case Nil
  then show ?case by (simp add: deliver_def buffer_fills_def)
next
  case (Cons n ns)
  from Cons.IH [OF same_capture_notify [OF Cons.prems, of n]] show ?case
    by (simp add: deliver_def buffer_fills_def capture_run_append)
qed

lemma same_capture_drain:
  "same_capture a b \<Longrightarrow> same_capture (drain fs a) (capture_run (map Drain_iteration fs) b)"
proof (induction fs arbitrary: a b)
  case Nil
  then show ?case by simp
next
  case (Cons f fs)
  from Cons.IH [OF same_capture_capture [OF Cons.prems, of "Drain_iteration f"]] show ?case
    by (simp add: capture_run_Cons)
qed

lemma same_capture_prepare:
  "same_capture (snd (synthesize_prepare env buffer bufferSize s)) (install_sink buffer bufferSize s)"
  by (simp add: synthesize_prepare_def Let_def)

text \<open>A successful call ends with the heap and the count of the capture steps run on the
  freshly installed sink.\<close>

lemma body_capture:
  assumes "fst (fst (synthesize_body env t buffer bufferSize cell s)) = DECtalkErrorNone"
  shows "same_capture (snd (synthesize_body env t buffer bufferSize cell s))
           (capture_run (captured_steps env) (install_sink buffer bufferSize s))"
proof -
  obtain ok p where p: "synthesize_prepare env buffer bufferSize s = (ok, p)"
    by (cases "synthesize_prepare env buffer bufferSize s")
  with same_capture_prepare [of env buffer bufferSize s]
  have sp: "same_capture p (install_sink buffer bufferSize s)" by simp
  let ?i = "install_sink buffer bufferSize s"
  have 1: "same_capture (deliver (speak_events env) (engine c p))
             (capture_run (buffer_fills (speak_events env)) ?i)" for c
    using sp by (intro same_capture_deliver) simp
  have 2: "same_capture (deliver (sync_events env) (engine c' (deliver (speak_events env) (engine c p))))
             (capture_run (buffer_fills (sync_events env))
                (capture_run (buffer_fills (speak_events env)) ?i))" for c c'
    using 1 [of c] by (intro same_capture_deliver) simp
  have 3: "same_capture
             (drain (returned env)
                (deliver (sync_events env) (engine c' (deliver (speak_events env) (engine c p)))))
             (capture_run (captured_steps env) ?i)" for c c'
    unfolding captured_steps_def capture_run_append
    using 2 [of c' c] by (rule same_capture_drain)
  from assms show ?thesis
    by (cases ok) (auto simp: synthesize_body_def p Let_def 3 split: if_splits)
qed

lemma heap_init_buffers [simp]: "heap (fold init_buffer xs s) = heap s"
  by (induction xs arbitrary: s) (simp_all add: init_buffer_def)

lemma heap_live: "heap live = zero_heap"
  by (simp add: live_def dectalk_init_def Let_def fresh_session quiet_env_def)
     (simp add: fresh_def initial_bridge_def)

lemma init_buffers_lpData:
  "i < n \<Longrightarrow> lpData (g_ttsBuffers (fold init_buffer [0..<n] s) i) = Some i"
  by (induction n) (auto simp: init_buffer_def less_Suc_eq)

lemma lpData_live: "i < NUM_BUFFERS \<Longrightarrow> lpData (g_ttsBuffers live i) = Some i"
  by (simp add: live_def dectalk_init_def Let_def fresh_session quiet_env_def engine_def
        init_buffers_lpData)

text \<open>The two capture steps of the busy engine on a sink of three samples at address
  1000: the first fill puts its four bytes at 1000, the drained one two bytes at 1004.\<close>

lemma busy_capture:
  "sint (g_outputSamplesWritten (capture_run (captured_steps busy_env) (install_sink 1000 3 live))) = 3"
  "map (heap (capture_run (captured_steps busy_env) (install_sink 1000 3 live)))
     [1000, 1001, 1002, 1003, 1004, 1005, 1006] = [0, 1, 2, 3, 0, 1, 0]"
proof -
  let ?i = "install_sink 1000 3 live"
  let ?a = "capture (Fill_notification two_samples) ?i"
  let ?b = "capture (Drain_iteration four_samples) ?a"
  have st: "captured_steps busy_env = [Fill_notification two_samples, Drain_iteration four_samples]"
    by (simp add: captured_steps_def busy_env_def quiet_env_def buffer_fills_def)
  have run: "capture_run (captured_steps busy_env) ?i = ?b"
    by (simp add: st capture_run_def)
  have f: "uint (filled two_samples) div 2 = 2" "uint (filled four_samples) div 2 = 4"
    "chunk two_samples = 0" "chunk four_samples = 1" "pcm two_samples = ramp" "pcm four_samples = ramp"
    by (simp_all add: two_samples_def four_samples_def)
  have "0 <=s (3::int32_t)" by (simp add: word_sle_eq)
  then have k1: "sink_ok ?i" by (rule sink_ok_install)
  have k2: "g_outputBuffer ?i \<noteq> 0" by (simp add: install_sink_def)
  note ki = k1 k2
  have zi: "g_outputBuffer ?i = 1000" "sint (g_outputBufferSize ?i) = 3" "sint (g_outputSamplesWritten ?i) = 0"
    "heap ?i = zero_heap"
    by (simp_all add: install_sink_def heap_live)
  have ci: "chunk_bytes two_samples ?i = ramp"
    using lpData_live [of 0] by (simp add: chunk_bytes_lpData f install_sink_def NUM_BUFFERS_def)
  note ea = capture_effect [OF ki, of "Fill_notification two_samples"]
  have wa: "sint (g_outputSamplesWritten ?a) = 2" using ea(1) zi f by simp
  have ha: "heap ?a = memcpy zero_heap 1000 ramp 4" using ea(2) zi f ci by simp
  have "sink_of ?a = sink_of ?i" by simp
  then have za: "g_outputBuffer ?a = 1000" "sint (g_outputBufferSize ?a) = 3"
    using zi by (simp_all add: sink_of_def)
  have ka1: "sink_ok ?a" using k1 by (rule sink_ok_capture)
  have ka2: "g_outputBuffer ?a \<noteq> 0" using za by simp
  note ka = ka1 ka2
  have la: "lpData (g_ttsBuffers ?a 1) = Some 1"
    using lpData_live [of 1] f
    by (simp add: ttsCallback_def Let_def engine_fill_def install_sink_def engine_def
          copy_samples_def NUM_BUFFERS_def)
  have ca: "chunk_bytes four_samples ?a = ramp"
    using la by (simp add: chunk_bytes_lpData f)
  note eb = capture_effect [OF ka, of "Drain_iteration four_samples"]
  have wb: "sint (g_outputSamplesWritten ?b) = 3" using eb(1) wa za f by simp
  have hb: "heap ?b = memcpy (memcpy zero_heap 1000 ramp 4) 1004 ramp 2"
    using eb(2) wa za f ca ha by simp
  show "sint (g_outputSamplesWritten (capture_run (captured_steps busy_env) ?i)) = 3"
    unfolding run by (rule wb)
  show "map (heap (capture_run (captured_steps busy_env) ?i))
          [1000, 1001, 1002, 1003, 1004, 1005, 1006] = [0, 1, 2, 3, 0, 1, 0]"
    unfolding run hb by (simp add: memcpy_def ramp_def zero_heap_def)
qed

lemma init_fresh_busy: "dectalk_init busy_env fresh = (DECtalkErrorNone, live)"
  by (simp add: live_def dectalk_init_def fresh_session busy_env_def quiet_env_def Let_def)

lemma sint32_is: "sint (w::int32_t) = k \<Longrightarrow> w = word_of_int k"
  by auto

text \<open>An engine that sends two samples while it speaks and hands back four when
  drained, into a buffer of three: the call succeeds with three samples.\<close>

lemma busy_synthesize:
  "fst (dectalk_synthesize busy_env (Some ''hi'') 1000 3 (Some 7) fresh) = (DECtalkErrorNone, Some 3)"
proof -
  have i: "dectalk_init busy_env fresh = (DECtalkErrorNone, live)"
    by (simp add: live_def dectalk_init_def fresh_session busy_env_def quiet_env_def Let_def)
  have e: "open_status busy_env = MMSYSERR_NOERROR" "\<not> malloc_fails busy_env"
    "speak_status busy_env = MMSYSERR_NOERROR"
    "speak_events busy_env = [Notify TTS_MSG_BUFFER (Some two_samples)]"
    "sync_events busy_env = []" "returned busy_env = [four_samples]"
    by (simp_all add: busy_env_def quiet_env_def)
  obtain ok p where p: "synthesize_prepare busy_env 1000 3 live = (ok, p)"
    by (cases "synthesize_prepare busy_env 1000 3 live")
  have h: "0 <=s (3::int32_t)" by (simp add: word_sle_eq)
  from p prepare_opens [OF e(1), of 1000 3 live] have ok: "ok" by simp
  from p prepare_ok [OF h, of busy_env 1000 live] have pk: "sink_ok p" by simp
  from p prepare_buffer [of busy_env 1000 3 live] prepare_sink(2) [of busy_env 1000 3 live]
  have pf: "g_outputBuffer p = 1000" "g_outputBufferSize p = 3" "g_outputSamplesWritten p = 0"
    by simp_all
  have f: "uint (filled two_samples) div 2 = 2" "uint (filled four_samples) div 2 = 4"
    by (simp_all add: two_samples_def four_samples_def)
  have w: "g_outputSamplesWritten
             (capture (Drain_iteration four_samples)
               (engine c2 (capture (Fill_notification two_samples) (engine c1 p)))) = 3"
    for c1 c2
  proof -
    let ?a = "engine c1 p"
    let ?b = "capture (Fill_notification two_samples) ?a"
    let ?c = "engine c2 ?b"
    have ka: "sink_ok ?a" "g_outputBuffer ?a \<noteq> 0" using pk pf by simp_all
    have wb: "sint (g_outputSamplesWritten ?b) = 2"
      using capture_effect(1) [OF ka, of "Fill_notification two_samples"] pf f by simp
    have "sink_of ?b = sink_of p" by simp
    then have zb: "g_outputBuffer ?b = 1000" "g_outputBufferSize ?b = 3"
      using pf by (simp_all add: sink_of_def)
    have kb: "sink_ok ?b" using ka(1) by (rule sink_ok_capture)
    have kc: "sink_ok ?c" "g_outputBuffer ?c \<noteq> 0"
      using kb zb by simp_all
    have "sint (g_outputSamplesWritten (capture (Drain_iteration four_samples) ?c)) = 3"
      using capture_effect(1) [OF kc, of "Drain_iteration four_samples"] wb zb f by simp
    then show ?thesis by (auto dest: sint32_is)
  qed
  have b: "fst (synthesize_body busy_env ''hi'' 1000 3 7 live) = (DECtalkErrorNone, 3)"
    using ok w [unfolded capture.simps]
    by (simp add: synthesize_body_def p e Let_def deliver_def)
  obtain r s' where rs: "synthesize_body busy_env ''hi'' 1000 3 7 live = (r, s')"
    by (cases "synthesize_body busy_env ''hi'' 1000 3 7 live")
  with b have "r = (DECtalkErrorNone, 3)" by simp
  with rs show ?thesis
    by (simp add: dectalk_synthesize_def fresh_session i)
qed

lemma null_text_rejected:
  "fst (dectalk_synthesize quiet_env None 1000 3 (Some 7) fresh) = (DECtalkErrorSynthFailed, Some 7)"
  by (simp add: dectalk_synthesize_def fresh_session init_fresh)

subsection \<open>Claims about synthesis\<close>

text \<open>
  C1, as stated, fails on the code for a negative \<open>bufferSize\<close>: with an engine that
  accepts the text and produces nothing, the call with \<open>bufferSize = -1\<close> returns
  \<open>DECtalkErrorNone\<close> and stores 0, which is not at most \<open>bufferSize\<close>.
\<close>

theorem synthesize_negative_capacity:
  "fst (dectalk_synthesize quiet_env (Some ''hi'') 1000 (- 1) (Some 7) fresh)
     = (DECtalkErrorNone, Some 0)
   \<and> \<not> (0::int32_t) <=s - 1"
  using quiet_synthesize(1) [of 1000 "''hi''" "- 1" 7] by (simp add: word_sle_eq)

text \<open>
  C1, amended. For every text, output buffer, \<open>bufferSize \<ge> 0\<close> and non-null
  \<open>samplesWritten\<close>, and whatever the engine answers, \<open>dectalk_synthesize\<close> either
  returns \<open>DECtalkErrorNone\<close> with \<open>0 \<le> *samplesWritten \<le> bufferSize\<close>, or returns
  \<open>DECtalkErrorInitFailed\<close> or \<open>DECtalkErrorSynthFailed\<close> with \<open>*samplesWritten\<close> as it
  was before the call.
\<close>

theorem synthesize_result:
  "0 <=s bufferSize \<Longrightarrow>
   (\<exists>n. fst (dectalk_synthesize env utterance buffer bufferSize (Some cell) s) = (DECtalkErrorNone, Some n)
        \<and> 0 <=s n \<and> n <=s bufferSize)
   \<or> ((fst (fst (dectalk_synthesize env utterance buffer bufferSize (Some cell) s)) = DECtalkErrorInitFailed
        \<or> fst (fst (dectalk_synthesize env utterance buffer bufferSize (Some cell) s)) = DECtalkErrorSynthFailed)
       \<and> snd (fst (dectalk_synthesize env utterance buffer bufferSize (Some cell) s)) = Some cell)"
proof -
  assume cap: "0 <=s bufferSize"
  obtain r s0 where i: "(if \<not> g_initialized s then dectalk_init env s else (DECtalkErrorNone, s)) = (r, s0)"
    by (cases "if \<not> g_initialized s then dectalk_init env s else (DECtalkErrorNone, s)")
  have r: "r = DECtalkErrorNone \<or> r = DECtalkErrorInitFailed"
    using i init_result [of env s] by (auto split: if_splits)
  show ?thesis
  proof (cases "r = DECtalkErrorNone \<and> utterance \<noteq> None \<and> buffer \<noteq> 0")
    case False
    with r show ?thesis
      by (cases utterance) (auto simp: dectalk_synthesize_def i)
  next
    case True
    then obtain t where t: "utterance = Some t" by auto
    obtain e c s' where b: "synthesize_body env t buffer bufferSize cell s0 = ((e, c), s')"
      by (cases "synthesize_body env t buffer bufferSize cell s0") auto
    have d: "dectalk_synthesize env utterance buffer bufferSize (Some cell) s = ((e, Some c), s')"
      using True by (simp add: dectalk_synthesize_def i t b)
    from body_result [OF cap, of env t buffer cell s0] b body_sink [of env t buffer bufferSize cell s0]
    have "(e = DECtalkErrorSynthFailed \<and> c = cell)
        \<or> (e = DECtalkErrorNone \<and> c = g_outputSamplesWritten s' \<and> sink_ok s'
           \<and> g_outputBufferSize s' = bufferSize)"
      by (auto simp: sink_of_def)
    then show ?thesis
      unfolding d by (auto simp: sink_ok_def word_sle_eq)
  qed
qed

theorem synthesize_result_witness:
  "0 <=s (3::int32_t)
   \<and> ((\<exists>n. fst (dectalk_synthesize busy_env (Some ''hi'') 1000 3 (Some 7) fresh)
              = (DECtalkErrorNone, Some n)
          \<and> 0 <=s n \<and> n <=s 3)
      \<or> ((fst (fst (dectalk_synthesize busy_env (Some ''hi'') 1000 3 (Some 7) fresh))
              = DECtalkErrorInitFailed
           \<or> fst (fst (dectalk_synthesize busy_env (Some ''hi'') 1000 3 (Some 7) fresh))
              = DECtalkErrorSynthFailed)
          \<and> snd (fst (dectalk_synthesize busy_env (Some ''hi'') 1000 3 (Some 7) fresh)) = Some 7))
   \<and> fst (dectalk_synthesize busy_env (Some ''hi'') 1000 3 (Some 7) fresh)
       = (DECtalkErrorNone, Some 3)
   \<and> fst (dectalk_synthesize quiet_env None 1000 3 (Some 7) fresh)
       = (DECtalkErrorSynthFailed, Some 7)"
proof -
  have h: "0 <=s (3::int32_t)" by (simp add: word_sle_eq)
  from h synthesize_result [OF h, where env = busy_env and utterance = "Some ''hi''"
         and buffer = 1000 and cell = 7 and s = fresh]
    busy_synthesize null_text_rejected
  show ?thesis by blast
qed

text \<open>
  C9, as stated, fails on the code: after a successful call the sink is still active,
  \<open>g_outputBuffer\<close> pointing at the caller's buffer. Nothing in the file sets it back to
  \<open>NULL\<close>.
\<close>

theorem sink_left_installed:
  "sink_active (snd (dectalk_synthesize quiet_env (Some ''hi'') 1000 8 (Some 7) fresh))
   \<and> fst (dectalk_synthesize quiet_env (Some ''hi'') 1000 8 (Some 7) fresh) = (DECtalkErrorNone, Some 0)"
  using quiet_synthesize [of 1000 "''hi''" 8 7] by (simp add: sink_active_def sink_of_def)

text \<open>
  C9, amended. A call to \<open>dectalk_synthesize\<close> that passes the initialisation and the
  argument check installs the sink (buffer pointer, capacity, written count 0) over the
  caller's buffer before the text is submitted, and does not clear it. When the call
  returns, with success or with \<open>DECtalkErrorSynthFailed\<close>, the sink still holds the
  caller's buffer and capacity and is active. When it returns with success, the count
  stored in \<open>*samplesWritten\<close> is the sink's written count, and that count and the
  caller's memory are those of the call's copy steps run on the sink as installed: every
  chunk the engine fills and notifies while the text is submitted and synchronised, and
  every chunk the drain pulls, has gone through the installed sink, counted from 0. A call
  that fails the initialisation or the argument check leaves the sink as it was.
\<close>

theorem sink_installed:
  "(utterance \<noteq> None \<and> buffer \<noteq> 0 \<and> samplesWritten \<noteq> None
      \<and> (g_initialized s \<or> startup_status env = MMSYSERR_NOERROR) \<longrightarrow>
      (let r = dectalk_synthesize env utterance buffer bufferSize samplesWritten s;
           s0 = (if g_initialized s then s else snd (dectalk_init env s));
           c = capture_run (captured_steps env) (install_sink buffer bufferSize s0)
       in sink_of (snd r) = (buffer, bufferSize) \<and> sink_active (snd r)
          \<and> (fst (fst r) = DECtalkErrorNone \<longrightarrow>
                snd (fst r) = Some (g_outputSamplesWritten (snd r))
                \<and> g_outputSamplesWritten (snd r) = g_outputSamplesWritten c
                \<and> heap (snd r) = heap c)))
   \<and> (\<not> (utterance \<noteq> None \<and> buffer \<noteq> 0 \<and> samplesWritten \<noteq> None
          \<and> (g_initialized s \<or> startup_status env = MMSYSERR_NOERROR)) \<longrightarrow>
      sink_of (snd (dectalk_synthesize env utterance buffer bufferSize samplesWritten s)) = sink_of s
      \<and> g_outputSamplesWritten (snd (dectalk_synthesize env utterance buffer bufferSize samplesWritten s))
          = g_outputSamplesWritten s)"
proof (intro conjI impI)
  assume a: "utterance \<noteq> None \<and> buffer \<noteq> 0 \<and> samplesWritten \<noteq> None
      \<and> (g_initialized s \<or> startup_status env = MMSYSERR_NOERROR)"
  then obtain t cell where t: "utterance = Some t" "samplesWritten = Some cell" by auto
  let ?s0 = "if g_initialized s then s else snd (dectalk_init env s)"
  let ?c = "capture_run (captured_steps env) (install_sink buffer bufferSize ?s0)"
  have i: "(if \<not> g_initialized s then dectalk_init env s else (DECtalkErrorNone, s))
             = (DECtalkErrorNone, ?s0)"
    using a by (auto simp: dectalk_init_def Let_def)
  obtain e c s' where b: "synthesize_body env t buffer bufferSize cell ?s0 = ((e, c), s')"
    by (cases "synthesize_body env t buffer bufferSize cell ?s0") auto
  have d: "dectalk_synthesize env utterance buffer bufferSize samplesWritten s = ((e, Some c), s')"
    using a by (simp add: dectalk_synthesize_def i t b)
  from body_sink [of env t buffer bufferSize cell ?s0] b
  have s': "sink_of s' = (buffer, bufferSize)" by simp
  have ok: "e = DECtalkErrorNone \<longrightarrow> c = g_outputSamplesWritten s'"
  proof -
    obtain ok p where p: "synthesize_prepare env buffer bufferSize ?s0 = (ok, p)"
      by (cases "synthesize_prepare env buffer bufferSize ?s0")
    from b show ?thesis
      unfolding synthesize_body_def p by (cases ok) (auto simp: Let_def split: if_splits)
  qed
  have cap: "e = DECtalkErrorNone \<longrightarrow>
               g_outputSamplesWritten s' = g_outputSamplesWritten ?c \<and> heap s' = heap ?c"
  proof
    assume "e = DECtalkErrorNone"
    with b body_capture [of env t buffer bufferSize cell ?s0] have "same_capture s' ?c" by simp
    then show "g_outputSamplesWritten s' = g_outputSamplesWritten ?c \<and> heap s' = heap ?c"
      by (simp add: same_capture_def)
  qed
  show "let r = dectalk_synthesize env utterance buffer bufferSize samplesWritten s;
           s0 = (if g_initialized s then s else snd (dectalk_init env s));
           c = capture_run (captured_steps env) (install_sink buffer bufferSize s0)
       in sink_of (snd r) = (buffer, bufferSize) \<and> sink_active (snd r)
          \<and> (fst (fst r) = DECtalkErrorNone \<longrightarrow>
                snd (fst r) = Some (g_outputSamplesWritten (snd r))
                \<and> g_outputSamplesWritten (snd r) = g_outputSamplesWritten c
                \<and> heap (snd r) = heap c)"
    unfolding Let_def d using a s' ok cap
    by (simp add: sink_active_def sink_of_def)
next
  assume n: "\<not> (utterance \<noteq> None \<and> buffer \<noteq> 0 \<and> samplesWritten \<noteq> None
          \<and> (g_initialized s \<or> startup_status env = MMSYSERR_NOERROR))"
  let ?r = "dectalk_synthesize env utterance buffer bufferSize samplesWritten s"
  have "snd ?r = s \<or> snd ?r = snd (dectalk_init env s)"
    using n init_result [of env s]
    by (cases utterance; cases samplesWritten)
      (auto simp: dectalk_synthesize_def dectalk_init_def Let_def split: if_splits prod.splits)
  moreover have "g_outputSamplesWritten (snd (dectalk_init env s)) = g_outputSamplesWritten s"
    by (simp add: dectalk_init_def Let_def)
  ultimately show "sink_of (snd ?r) = sink_of s" "g_outputSamplesWritten (snd ?r) = g_outputSamplesWritten s"
    by auto
qed

theorem sink_installed_witness:
  "(Some ''hi'' \<noteq> None \<and> (1000::int) \<noteq> 0 \<and> Some (7::int32_t) \<noteq> None
      \<and> (g_initialized fresh \<or> startup_status busy_env = MMSYSERR_NOERROR))
   \<and> sink_of (snd (dectalk_synthesize busy_env (Some ''hi'') 1000 3 (Some 7) fresh)) = (1000, 3)
   \<and> sink_active (snd (dectalk_synthesize busy_env (Some ''hi'') 1000 3 (Some 7) fresh))
   \<and> fst (fst (dectalk_synthesize busy_env (Some ''hi'') 1000 3 (Some 7) fresh)) = DECtalkErrorNone
   \<and> snd (fst (dectalk_synthesize busy_env (Some ''hi'') 1000 3 (Some 7) fresh))
       = Some (g_outputSamplesWritten
                 (snd (dectalk_synthesize busy_env (Some ''hi'') 1000 3 (Some 7) fresh)))
   \<and> sint (g_outputSamplesWritten
              (snd (dectalk_synthesize busy_env (Some ''hi'') 1000 3 (Some 7) fresh))) = 3
   \<and> map (heap (snd (dectalk_synthesize busy_env (Some ''hi'') 1000 3 (Some 7) fresh)))
         [1000, 1001, 1002, 1003, 1004, 1005, 1006] = [0, 1, 2, 3, 0, 1, 0]
   \<and> \<not> ((None :: string option) \<noteq> None \<and> (1000::int) \<noteq> 0 \<and> Some (7::int32_t) \<noteq> None
          \<and> (g_initialized fresh \<or> startup_status quiet_env = MMSYSERR_NOERROR))
   \<and> sink_of (snd (dectalk_synthesize quiet_env None 1000 8 (Some 7) fresh)) = sink_of fresh"
proof -
  let ?r = "dectalk_synthesize busy_env (Some ''hi'') 1000 3 (Some 7) fresh"
  let ?c = "capture_run (captured_steps busy_env) (install_sink 1000 3 live)"
  have q: "startup_status busy_env = MMSYSERR_NOERROR"
    by (simp add: busy_env_def quiet_env_def)
  have s0: "(if g_initialized fresh then fresh else snd (dectalk_init busy_env fresh)) = live"
    by (simp add: fresh_session init_fresh_busy)
  have e: "fst (fst ?r) = DECtalkErrorNone" by (simp add: busy_synthesize)
  note w = sink_installed [where utterance = "Some ''hi''" and buffer = 1000
         and samplesWritten = "Some 7" and s = fresh and env = busy_env and bufferSize = 3,
         unfolded Let_def s0]
  from w q e have 1: "sink_of (snd ?r) = (1000, 3)" "sink_active (snd ?r)"
    "snd (fst ?r) = Some (g_outputSamplesWritten (snd ?r))"
    "g_outputSamplesWritten (snd ?r) = g_outputSamplesWritten ?c" "heap (snd ?r) = heap ?c"
    by simp_all
  from sink_installed [where utterance = None and buffer = 1000
         and samplesWritten = "Some 7" and s = fresh and env = quiet_env and bufferSize = 8]
  have 2: "sink_of (snd (dectalk_synthesize quiet_env None 1000 8 (Some 7) fresh)) = sink_of fresh"
    by simp
  from q e 1 2 busy_capture show ?thesis by simp
qed

end
